theory Spec2Isabelle
  imports Complex_Main
begin

section \<open>Common data\<close>

text \<open>
  Python floats are modelled as \<^typ>\<open>real\<close> and Python ints as \<^typ>\<open>int\<close>: rounding,
  infinities and NaN are outside the model. A division whose divisor is zero raises
  in Python and is an error value here.
\<close>

datatype py_error = ZeroDivisionError | IndexError

type_synonym point = "real \<times> real"
type_synonym box = "int \<times> int \<times> int \<times> int"

text \<open>\<open>cdist(..., metric='euclidean')\<close> and the inlined \<open>np.sqrt(dx**2 + dy**2)\<close>.\<close>

definition euclidean :: "point \<Rightarrow> point \<Rightarrow> real" where
  "euclidean p q = sqrt ((fst p - fst q)\<^sup>2 + (snd p - snd q)\<^sup>2)"

section \<open>robust\_tracker\_v5: candidate merger\<close>

text \<open>The blob dictionaries \<open>{'centroid': ..., 'bbox': ..., 'area': ...}\<close>.\<close>

record blob =
  centroid :: point
  bbox :: box
  area :: real

record OrganismCandidate =
  frame_idx :: int
  centroid :: point
  bbox :: box
  total_area :: real
  dark_blobs :: "blob list"
  bright_blobs :: "blob list"
  candidate_type :: string

record MergeParams =
  merge_radius :: real
  min_separation :: real

text \<open>Lines 234-260: the candidate built from an accepted dark/bright pair.\<close>

definition coupled_candidate :: "int \<Rightarrow> blob \<Rightarrow> blob \<Rightarrow> py_error + OrganismCandidate" where
  "coupled_candidate fidx dark_blob bright_blob =
     (let total = area dark_blob + area bright_blob in
      if total = 0 then Inl ZeroDivisionError
      else
        (let cx = (fst (blob.centroid dark_blob) * area dark_blob +
                   fst (blob.centroid bright_blob) * area bright_blob) / total;
             cy = (snd (blob.centroid dark_blob) * area dark_blob +
                   snd (blob.centroid bright_blob) * area bright_blob) / total
         in case (blob.bbox dark_blob, blob.bbox bright_blob) of
              ((dx, dy, dw, dh), (bx, by, bw, bh)) \<Rightarrow>
                (let x1 = min dx bx; y1 = min dy by;
                     x2 = max (dx + dw) (bx + bw); y2 = max (dy + dh) (by + bh)
                 in Inr \<lparr>frame_idx = fidx, centroid = (cx, cy),
                          bbox = (x1, y1, x2 - x1, y2 - y1), total_area = total,
                          dark_blobs = [dark_blob], bright_blobs = [bright_blob],
                          candidate_type = ''coupled''\<rparr>)))"

text \<open>Lines 268-276 and 282-290.\<close>

definition dark_only_candidate :: "int \<Rightarrow> blob \<Rightarrow> OrganismCandidate" where
  "dark_only_candidate fidx dark_blob =
     \<lparr>frame_idx = fidx, centroid = blob.centroid dark_blob, bbox = blob.bbox dark_blob,
      total_area = area dark_blob, dark_blobs = [dark_blob], bright_blobs = [],
      candidate_type = ''dark_only''\<rparr>"

definition bright_only_candidate :: "int \<Rightarrow> blob \<Rightarrow> OrganismCandidate" where
  "bright_only_candidate fidx bright_blob =
     \<lparr>frame_idx = fidx, centroid = blob.centroid bright_blob, bbox = blob.bbox bright_blob,
      total_area = area bright_blob, dark_blobs = [], bright_blobs = [bright_blob],
      candidate_type = ''bright_only''\<rparr>"

text \<open>Lines 222-226: all index pairs within the merge radius, dark index outermost.\<close>

definition merge_pairs :: "blob list \<Rightarrow> blob list \<Rightarrow> MergeParams \<Rightarrow> (nat \<times> nat \<times> real) list" where
  "merge_pairs dark bright params =
     concat (map (\<lambda>d_idx. concat (map (\<lambda>b_idx.
        if euclidean (blob.centroid (dark ! d_idx)) (blob.centroid (bright ! b_idx))
             \<le> merge_radius params
        then [(d_idx, b_idx,
               euclidean (blob.centroid (dark ! d_idx)) (blob.centroid (bright ! b_idx)))]
        else []) [0..<length bright])) [0..<length dark])"

text \<open>
  Lines 232-263: the greedy loop over the sorted pairs. The state is the candidate list
  and the two sets of used indices.
\<close>

fun greedy_couple ::
  "blob list \<Rightarrow> blob list \<Rightarrow> int \<Rightarrow> (nat \<times> nat \<times> real) list \<Rightarrow>
   OrganismCandidate list \<times> nat set \<times> nat set \<Rightarrow>
   py_error + (OrganismCandidate list \<times> nat set \<times> nat set)" where
  "greedy_couple dark bright fidx [] st = Inr st"
| "greedy_couple dark bright fidx ((d_idx, b_idx, dst) # pairs) (candidates, used_dark, used_bright) =
     (if d_idx \<notin> used_dark \<and> b_idx \<notin> used_bright then
        (case coupled_candidate fidx (dark ! d_idx) (bright ! b_idx) of
           Inl e \<Rightarrow> Inl e
         | Inr c \<Rightarrow> greedy_couple dark bright fidx pairs
                      (candidates @ [c], insert d_idx used_dark, insert b_idx used_bright))
      else greedy_couple dark bright fidx pairs (candidates, used_dark, used_bright))"

text \<open>\<open>pairs.sort(key=lambda x: x[2])\<close> is a stable sort, as \<^const>\<open>sort_key\<close> is.\<close>

definition merge_blobs_into_candidates ::
  "blob list \<Rightarrow> blob list \<Rightarrow> int \<Rightarrow> MergeParams \<Rightarrow> py_error + OrganismCandidate list" where
  "merge_blobs_into_candidates dark bright fidx params =
     (case (if dark \<noteq> [] \<and> bright \<noteq> []
            then greedy_couple dark bright fidx
                   (sort_key (\<lambda>x. snd (snd x)) (merge_pairs dark bright params)) ([], {}, {})
            else Inr ([], {}, {})) of
        Inl e \<Rightarrow> Inl e
      | Inr (candidates, used_dark, used_bright) \<Rightarrow>
          Inr (candidates
               @ map (\<lambda>d_idx. dark_only_candidate fidx (dark ! d_idx))
                   (filter (\<lambda>d_idx. d_idx \<notin> used_dark) [0..<length dark])
               @ map (\<lambda>b_idx. bright_only_candidate fidx (bright ! b_idx))
                   (filter (\<lambda>b_idx. b_idx \<notin> used_bright) [0..<length bright])))"

section \<open>robust\_tracker\_v5: tracks\<close>

record RobustTrack =
  track_id :: int
  positions :: "point list"
  frames :: "int list"
  bboxes :: "box list"
  areas :: "real list"
  candidate_types :: "string list"
  last_seen_frame :: int
  frames_since_detection :: int
  is_resting :: bool
  rest_zone_center :: "point option"
  rest_zone_radius :: real
  is_valid :: bool

text \<open>\<open>RobustTrack(track_id=n)\<close>: every other field at its dataclass default.\<close>

definition RobustTrack_init :: "int \<Rightarrow> RobustTrack" where
  "RobustTrack_init n =
     \<lparr>track_id = n, positions = [], frames = [], bboxes = [], areas = [],
      candidate_types = [], last_seen_frame = 0, frames_since_detection = 0,
      is_resting = False, rest_zone_center = None, rest_zone_radius = 100,
      is_valid = False\<rparr>"

record RobustTrackingParams =
  max_distance :: real
  max_skip_frames :: int
  initial_rest_radius :: real
  max_rest_radius :: real
  rest_expand_rate :: real
  min_track_length :: int
  min_displacement :: real
  min_speed :: real
  max_speed :: real

definition RobustTrackingParams_default :: RobustTrackingParams where
  "RobustTrackingParams_default =
     \<lparr>max_distance = 60, max_skip_frames = 90, initial_rest_radius = 100,
      max_rest_radius = 200, rest_expand_rate = 10, min_track_length = 5,
      min_displacement = 10, min_speed = 0.1, max_speed = 30\<rparr>"

definition track_length :: "RobustTrack \<Rightarrow> int" where
  "track_length t = int (length (frames t))"

text \<open>The property \<open>displacement\<close>: the loop \<open>for i in range(1, len(self.positions))\<close>.\<close>

definition displacement :: "RobustTrack \<Rightarrow> real" where
  "displacement t =
     (if length (positions t) < 2 then 0
      else foldl (\<lambda>total i.
             let dx = fst (positions t ! i) - fst (positions t ! (i - 1));
                 dy = snd (positions t ! i) - snd (positions t ! (i - 1))
             in total + sqrt (dx\<^sup>2 + dy\<^sup>2))
           0 [1..<length (positions t)])"

definition avg_speed :: "RobustTrack \<Rightarrow> real" where
  "avg_speed t =
     (if length (positions t) < 2 then 0
      else displacement t / (real (length (positions t)) - 1))"

text \<open>
  \<open>if self.is_resting and self.rest_zone_center\<close>: a tuple of two numbers is truthy,
  so the second conjunct only asks that the centre is not \<open>None\<close>.
\<close>

definition predicted_position :: "RobustTrack \<Rightarrow> point" where
  "predicted_position t =
     (case (is_resting t, rest_zone_center t) of
        (True, Some z) \<Rightarrow> z
      | _ \<Rightarrow>
          if length (positions t) \<ge> 2 then
            (let vx = fst (last (positions t)) - fst (positions t ! (length (positions t) - 2));
                 vy = snd (last (positions t)) - snd (positions t ! (length (positions t) - 2))
             in (fst (last (positions t)) + vx, snd (last (positions t)) + vy))
          else if positions t \<noteq> [] then last (positions t)
          else (0, 0))"

definition enter_rest_mode :: "RobustTrack \<Rightarrow> RobustTrack" where
  "enter_rest_mode t =
     (let t1 = t\<lparr>is_resting := True\<rparr>;
          t2 = (if positions t1 \<noteq> [] then t1\<lparr>rest_zone_center := Some (last (positions t1))\<rparr>
                else t1)
      in t2\<lparr>rest_zone_radius := 100\<rparr>)"

definition expand_rest_zone :: "RobustTrack \<Rightarrow> real \<Rightarrow> RobustTrack" where
  "expand_rest_zone t max_radius =
     t\<lparr>rest_zone_radius := min max_radius (rest_zone_radius t + 10)\<rparr>"

definition update :: "RobustTrack \<Rightarrow> OrganismCandidate \<Rightarrow> int \<Rightarrow> RobustTrack" where
  "update t candidate fidx =
     t\<lparr>frames := frames t @ [fidx],
       positions := positions t @ [OrganismCandidate.centroid candidate],
       bboxes := bboxes t @ [OrganismCandidate.bbox candidate],
       areas := areas t @ [total_area candidate],
       candidate_types := candidate_types t @ [candidate_type candidate],
       last_seen_frame := fidx,
       frames_since_detection := 0,
       is_resting := False,
       rest_zone_center := None\<rparr>"

definition validate_track :: "RobustTrack \<Rightarrow> RobustTrackingParams \<Rightarrow> bool" where
  "validate_track t params =
     (if track_length t < min_track_length params then False
      else if displacement t < min_displacement params then False
      else if avg_speed t < min_speed params then False
      else if avg_speed t > max_speed params then False
      else True)"

section \<open>robust\_tracker\_v5: association\<close>

text \<open>
  Lines 314-321 and 371-378, the treatment of a track that got no candidate: the counter
  is incremented, and the track is appended to \<open>updated_tracks\<close> (\<open>Some\<close>) only while
  the counter is within \<open>max_skip_frames\<close>.
\<close>

definition age_track :: "RobustTrackingParams \<Rightarrow> RobustTrack \<Rightarrow> RobustTrack option" where
  "age_track params t =
     (let t1 = t\<lparr>frames_since_detection := frames_since_detection t + 1\<rparr> in
      if frames_since_detection t1 \<le> max_skip_frames params then
        Some (if \<not> is_resting t1 then enter_rest_mode t1
              else expand_rest_zone t1 (max_rest_radius params))
      else None)"

text \<open>
  Lines 326-340: an entry of the distance matrix, the Euclidean distance from the
  candidate to the track's prediction, halved when the track rests and the candidate
  lies in its rest zone.
\<close>

definition adjusted_distance :: "OrganismCandidate \<Rightarrow> RobustTrack \<Rightarrow> real" where
  "adjusted_distance c t =
     (let d = euclidean (OrganismCandidate.centroid c) (predicted_position t) in
      case (is_resting t, rest_zone_center t) of
        (True, Some z) \<Rightarrow>
          if euclidean (OrganismCandidate.centroid c) z \<le> rest_zone_radius t then d * 0.5 else d
      | _ \<Rightarrow> d)"

text \<open>Lines 347-356.\<close>

definition association_pairs ::
  "OrganismCandidate list \<Rightarrow> RobustTrack list \<Rightarrow> RobustTrackingParams \<Rightarrow> (nat \<times> nat \<times> real) list" where
  "association_pairs candidates tracks params =
     concat (map (\<lambda>c_idx. concat (map (\<lambda>t_idx.
        (let max_dist = (if is_resting (tracks ! t_idx) then rest_zone_radius (tracks ! t_idx)
                         else max_distance params)
         in if adjusted_distance (candidates ! c_idx) (tracks ! t_idx) \<le> max_dist
            then [(c_idx, t_idx, adjusted_distance (candidates ! c_idx) (tracks ! t_idx))]
            else [])) [0..<length tracks])) [0..<length candidates])"

text \<open>Lines 360-366: the track objects are updated in place, here in the list.\<close>

fun greedy_match ::
  "OrganismCandidate list \<Rightarrow> int \<Rightarrow> (nat \<times> nat \<times> real) list \<Rightarrow>
   RobustTrack list \<times> nat set \<times> nat set \<Rightarrow> RobustTrack list \<times> nat set \<times> nat set" where
  "greedy_match candidates fidx [] st = st"
| "greedy_match candidates fidx ((c_idx, t_idx, dst) # pairs) (tracks, matched_candidates, matched_tracks) =
     (if c_idx \<notin> matched_candidates \<and> t_idx \<notin> matched_tracks then
        greedy_match candidates fidx pairs
          (tracks[t_idx := update (tracks ! t_idx) (candidates ! c_idx) fidx],
           insert c_idx matched_candidates, insert t_idx matched_tracks)
      else greedy_match candidates fidx pairs (tracks, matched_candidates, matched_tracks))"

text \<open>
  The iteration \<open>for t_idx in matched_tracks\<close> (line 381) runs over a Python set, whose
  iteration order is the order of its hash table and need not be ascending (the set
  \<open>{8, 1}\<close> is iterated as \<open>8, 1\<close>). The model lists the matched tracks in ascending
  index order, so its result agrees with the code up to a permutation of the matched
  tracks at the end of the list. No property below depends on the order of that part.
\<close>

definition match_candidates_to_tracks ::
  "OrganismCandidate list \<Rightarrow> RobustTrack list \<Rightarrow> int \<Rightarrow> RobustTrackingParams \<Rightarrow>
   RobustTrack list \<times> OrganismCandidate list" where
  "match_candidates_to_tracks candidates tracks fidx params =
     (if tracks = [] then ([], candidates)
      else if candidates = [] then (List.map_filter (age_track params) tracks, [])
      else
        (case greedy_match candidates fidx
                (sort_key (\<lambda>x. snd (snd x)) (association_pairs candidates tracks params))
                (tracks, {}, {}) of
           (tracks', matched_candidates, matched_tracks) \<Rightarrow>
             (List.map_filter (\<lambda>t_idx. if t_idx \<notin> matched_tracks
                                        then age_track params (tracks' ! t_idx) else None)
                [0..<length tracks']
              @ map (\<lambda>t_idx. tracks' ! t_idx)
                  (filter (\<lambda>t_idx. t_idx \<in> matched_tracks) [0..<length tracks']),
              map (\<lambda>i. candidates ! i)
                (filter (\<lambda>i. i \<notin> matched_candidates) [0..<length candidates]))))"

section \<open>robust\_tracker\_v5: the frame loop\<close>

text \<open>Lines 583-587: a new track for every unmatched candidate.\<close>

fun new_tracks ::
  "OrganismCandidate list \<Rightarrow> int \<Rightarrow> RobustTrack list \<times> int \<Rightarrow> RobustTrack list \<times> int" where
  "new_tracks [] fidx st = st"
| "new_tracks (candidate # rest) fidx (active_tracks, next_track_id) =
     new_tracks rest fidx
       (active_tracks @ [update (RobustTrack_init next_track_id) candidate fidx],
        next_track_id + 1)"

text \<open>
  The \<open>while True\<close> loop of \<open>process_video_robust\<close>. The blob detector is external: a video
  is the list of its frames' dark and bright blob lists. Rendering and statistics are
  left out.
\<close>

fun process_frames ::
  "(blob list \<times> blob list) list \<Rightarrow> int \<Rightarrow> MergeParams \<Rightarrow> RobustTrackingParams \<Rightarrow>
   RobustTrack list \<times> int \<Rightarrow> py_error + (RobustTrack list \<times> int)" where
  "process_frames [] fidx mp tp st = Inr st"
| "process_frames ((dark, bright) # rest) fidx mp tp (active_tracks, next_track_id) =
     (case merge_blobs_into_candidates dark bright fidx mp of
        Inl e \<Rightarrow> Inl e
      | Inr candidates \<Rightarrow>
          (case match_candidates_to_tracks candidates active_tracks fidx tp of
             (active', unmatched) \<Rightarrow>
               process_frames rest (fidx + 1) mp tp
                 (new_tracks unmatched fidx (active', next_track_id))))"

text \<open>Lines 543-545 and 602-606: the result is \<open>completed_tracks\<close>.\<close>

definition process_video_robust ::
  "(blob list \<times> blob list) list \<Rightarrow> MergeParams \<Rightarrow> RobustTrackingParams \<Rightarrow>
   py_error + RobustTrack list" where
  "process_video_robust video mp tp =
     (case process_frames video 0 mp tp ([], 1) of
        Inl e \<Rightarrow> Inl e
      | Inr (active_tracks, next_track_id) \<Rightarrow>
          Inr (map (\<lambda>t. t\<lparr>is_valid := validate_track t tp\<rparr>) active_tracks))"

section \<open>unified\_tracker\_v2: detection fusion\<close>

datatype DetectionSource = RTDETR_ONLY | MOTION_ONLY | BOTH_FUSED | MOTION_REINFORCED

record RTDETRDetection =
  frame_idx :: int
  bbox :: box
  centroid :: point
  confidence :: real
  class_name :: string

record UnifiedDetection =
  frame_idx :: int
  bbox :: box
  centroid :: point
  area :: real
  rtdetr_conf :: real
  motion_conf :: real
  unified_conf :: real
  source :: DetectionSource
  rtdetr_class :: "string option"
  motion_type :: "string option"

record FusionParams =
  iou_threshold :: real
  distance_threshold :: real
  rtdetr_weight :: real
  motion_weight :: real
  both_detected_boost :: real
  motion_only_base_conf :: real

definition FusionParams_default :: FusionParams where
  "FusionParams_default =
     \<lparr>iou_threshold = 0.3, distance_threshold = 50, rtdetr_weight = 0.7,
      motion_weight = 0.3, both_detected_boost = 1.2, motion_only_base_conf = 0.5\<rparr>"

definition calculate_iou :: "box \<Rightarrow> box \<Rightarrow> real" where
  "calculate_iou bbox1 bbox2 =
     (case (bbox1, bbox2) of
        ((x1, y1, w1, h1), (x2, y2, w2, h2)) \<Rightarrow>
          (let xi1 = max x1 x2; yi1 = max y1 y2;
               xi2 = min (x1 + w1) (x2 + w2); yi2 = min (y1 + h1) (y2 + h2)
           in if xi2 \<le> xi1 \<or> yi2 \<le> yi1 then 0
              else
                (let inter_area = (xi2 - xi1) * (yi2 - yi1);
                     union_area = w1 * h1 + w2 * h2 - inter_area
                 in if union_area > 0 then real_of_int inter_area / real_of_int union_area
                    else 0)))"

text \<open>
  The score of line 303. \<open>dist\<close> is a NumPy scalar, so with a zero threshold the quotient
  is \<open>inf\<close> or \<open>nan\<close> instead of an exception, and \<open>max(0, 1 - dist/threshold)\<close> is
  then \<open>0\<close>.
\<close>

definition match_score :: "FusionParams \<Rightarrow> real \<Rightarrow> real \<Rightarrow> real" where
  "match_score params iou dst =
     iou * 0.7 +
     (if distance_threshold params = 0 then 0
      else max 0 (1 - dst / distance_threshold params)) * 0.3"

text \<open>
  Lines 292-306: the inner loop over \<open>enumerate(motion_candidates)\<close>; the state is
  \<open>(best_match_idx, best_match_score)\<close>, started at \<open>(None, 0)\<close>.
\<close>

fun best_match ::
  "RTDETRDetection \<Rightarrow> FusionParams \<Rightarrow> nat set \<Rightarrow> (nat \<times> OrganismCandidate) list \<Rightarrow>
   nat option \<times> real \<Rightarrow> nat option \<times> real" where
  "best_match r params used [] st = st"
| "best_match r params used ((i, motion_cand) # rest) (best_match_idx, best_match_score) =
     (if i \<in> used then best_match r params used rest (best_match_idx, best_match_score)
      else
        (let iou = calculate_iou (RTDETRDetection.bbox r) (OrganismCandidate.bbox motion_cand);
             dst = sqrt ((fst (RTDETRDetection.centroid r) - fst (OrganismCandidate.centroid motion_cand))\<^sup>2 +
                         (snd (RTDETRDetection.centroid r) - snd (OrganismCandidate.centroid motion_cand))\<^sup>2)
         in if iou \<ge> iou_threshold params \<or> dst \<le> distance_threshold params then
              (let score = match_score params iou dst in
               if score > best_match_score
               then best_match r params used rest (Some i, score)
               else best_match r params used rest (best_match_idx, best_match_score))
            else best_match r params used rest (best_match_idx, best_match_score)))"

text \<open>Lines 321-332, 337-347 and 354-364: the three kinds of output record.\<close>

definition fused_detection ::
  "int \<Rightarrow> FusionParams \<Rightarrow> RTDETRDetection \<Rightarrow> OrganismCandidate \<Rightarrow> UnifiedDetection" where
  "fused_detection fidx params r motion_cand =
     (let mconf = 0.7;
          uconf = (confidence r * rtdetr_weight params + mconf * motion_weight params)
                    * both_detected_boost params
      in case RTDETRDetection.bbox r of
           (x, y, w, h) \<Rightarrow>
             \<lparr>frame_idx = fidx, bbox = RTDETRDetection.bbox r,
              centroid = RTDETRDetection.centroid r, area = real_of_int (w * h),
              rtdetr_conf = confidence r, motion_conf = mconf,
              unified_conf = min uconf 1, source = BOTH_FUSED,
              rtdetr_class = Some (class_name r),
              motion_type = Some (candidate_type motion_cand)\<rparr>)"

definition rtdetr_only_detection ::
  "int \<Rightarrow> FusionParams \<Rightarrow> RTDETRDetection \<Rightarrow> UnifiedDetection" where
  "rtdetr_only_detection fidx params r =
     (case RTDETRDetection.bbox r of
        (x, y, w, h) \<Rightarrow>
          \<lparr>frame_idx = fidx, bbox = RTDETRDetection.bbox r,
           centroid = RTDETRDetection.centroid r, area = real_of_int (w * h),
           rtdetr_conf = confidence r, motion_conf = 0,
           unified_conf = confidence r * rtdetr_weight params, source = RTDETR_ONLY,
           rtdetr_class = Some (class_name r), motion_type = None\<rparr>)"

definition motion_only_detection ::
  "int \<Rightarrow> FusionParams \<Rightarrow> OrganismCandidate \<Rightarrow> UnifiedDetection" where
  "motion_only_detection fidx params motion_cand =
     (let mconf = 0.7 in
      \<lparr>frame_idx = fidx, bbox = OrganismCandidate.bbox motion_cand,
       centroid = OrganismCandidate.centroid motion_cand, area = total_area motion_cand,
       rtdetr_conf = 0, motion_conf = mconf,
       unified_conf = motion_only_base_conf params * mconf, source = MOTION_ONLY,
       rtdetr_class = None, motion_type = Some (candidate_type motion_cand)\<rparr>)"

text \<open>Lines 288-347: the outer loop; the state is \<open>(unified, used_motion_indices)\<close>.\<close>

fun fuse_loop ::
  "RTDETRDetection list \<Rightarrow> OrganismCandidate list \<Rightarrow> int \<Rightarrow> FusionParams \<Rightarrow>
   UnifiedDetection list \<times> nat set \<Rightarrow> UnifiedDetection list \<times> nat set" where
  "fuse_loop [] motion_candidates fidx params st = st"
| "fuse_loop (r # rest) motion_candidates fidx params (unified, used) =
     (case fst (best_match r params used (List.enumerate 0 motion_candidates) (None, 0)) of
        Some best_match_idx \<Rightarrow>
          fuse_loop rest motion_candidates fidx params
            (unified @ [fused_detection fidx params r (motion_candidates ! best_match_idx)],
             insert best_match_idx used)
      | None \<Rightarrow>
          fuse_loop rest motion_candidates fidx params
            (unified @ [rtdetr_only_detection fidx params r], used))"

definition fuse_detections ::
  "RTDETRDetection list \<Rightarrow> OrganismCandidate list \<Rightarrow> int \<Rightarrow> FusionParams \<Rightarrow>
   UnifiedDetection list" where
  "fuse_detections rtdetr_detections motion_candidates fidx params =
     (case fuse_loop rtdetr_detections motion_candidates fidx params ([], {}) of
        (unified, used) \<Rightarrow>
          unified @ map (\<lambda>i. motion_only_detection fidx params (motion_candidates ! i))
                      (filter (\<lambda>i. i \<notin> used) [0..<length motion_candidates]))"

section \<open>unified\_tracker\_v2: tracks\<close>

record UnifiedTrack =
  track_id :: int
  positions :: "point list"
  frames :: "int list"
  bboxes :: "box list"
  sources :: "DetectionSource list"
  confidences :: "real list"
  rtdetr_classes :: "string list"
  frames_since_detection :: int
  is_resting :: bool
  rest_zone_center :: "point option"
  rest_zone_radius :: real

record UnifiedTrackingParams =
  max_distance :: real
  max_frames_without_detection :: int
  min_track_length :: int
  min_displacement :: real
  min_speed :: real
  max_speed :: real
  initial_rest_radius :: real
  max_rest_radius :: real

definition UnifiedTrackingParams_default :: UnifiedTrackingParams where
  "UnifiedTrackingParams_default =
     \<lparr>max_distance = 60, max_frames_without_detection = 90, min_track_length = 5,
      min_displacement = 10, min_speed = 0.1, max_speed = 50,
      initial_rest_radius = 100, max_rest_radius = 200\<rparr>"

definition unified_length :: "UnifiedTrack \<Rightarrow> int" where
  "unified_length t = int (length (UnifiedTrack.positions t))"

text \<open>Here the displacement is the distance from the first position to the last.\<close>

definition unified_displacement :: "UnifiedTrack \<Rightarrow> real" where
  "unified_displacement t =
     (if length (UnifiedTrack.positions t) < 2 then 0
      else sqrt ((fst (last (UnifiedTrack.positions t)) - fst (hd (UnifiedTrack.positions t)))\<^sup>2 +
                 (snd (last (UnifiedTrack.positions t)) - snd (hd (UnifiedTrack.positions t)))\<^sup>2))"

definition unified_avg_speed :: "UnifiedTrack \<Rightarrow> real" where
  "unified_avg_speed t =
     (if length (UnifiedTrack.positions t) < 2 then 0
      else sum_list (map (\<lambda>(p1, p2). sqrt ((fst p2 - fst p1)\<^sup>2 + (snd p2 - snd p1)\<^sup>2))
                     (zip (butlast (UnifiedTrack.positions t)) (tl (UnifiedTrack.positions t))))
           / (real (length (UnifiedTrack.positions t)) - 1))"

definition unified_update :: "UnifiedTrack \<Rightarrow> UnifiedDetection \<Rightarrow> UnifiedTrack" where
  "unified_update t detection =
     t\<lparr>UnifiedTrack.positions := UnifiedTrack.positions t @ [UnifiedDetection.centroid detection],
       UnifiedTrack.frames := UnifiedTrack.frames t @ [UnifiedDetection.frame_idx detection],
       UnifiedTrack.bboxes := UnifiedTrack.bboxes t @ [UnifiedDetection.bbox detection],
       sources := sources t @ [source detection],
       confidences := confidences t @ [unified_conf detection],
       rtdetr_classes :=
         (case rtdetr_class detection of
            None \<Rightarrow> rtdetr_classes t
          | Some cls \<Rightarrow> if cls \<noteq> [] then rtdetr_classes t @ [cls] else rtdetr_classes t),
       UnifiedTrack.frames_since_detection := 0,
       UnifiedTrack.is_resting := False\<rparr>"

text \<open>The prediction of this tracker does not look at the rest state.\<close>

definition unified_predicted_position :: "UnifiedTrack \<Rightarrow> point" where
  "unified_predicted_position t =
     (if length (UnifiedTrack.positions t) < 2 then
        (if UnifiedTrack.positions t \<noteq> [] then last (UnifiedTrack.positions t) else (0, 0))
      else
        (let dx = fst (last (UnifiedTrack.positions t))
                    - fst (UnifiedTrack.positions t ! (length (UnifiedTrack.positions t) - 2));
             dy = snd (last (UnifiedTrack.positions t))
                    - snd (UnifiedTrack.positions t ! (length (UnifiedTrack.positions t) - 2))
         in (fst (last (UnifiedTrack.positions t)) + dx,
             snd (last (UnifiedTrack.positions t)) + dy)))"




text \<open>\<open>UnifiedTrackerV2.finalize\<close>, on the tracker's two track lists and its parameters.\<close>

definition finalize ::
  "UnifiedTrack list \<Rightarrow> UnifiedTrack list \<Rightarrow> UnifiedTrackingParams \<Rightarrow> UnifiedTrack list" where
  "finalize active_tracks completed_tracks params =
     filter (\<lambda>t. unified_length t \<ge> min_track_length params
               \<and> unified_displacement t \<ge> min_displacement params
               \<and> min_speed params \<le> unified_avg_speed t
               \<and> unified_avg_speed t \<le> max_speed params)
       (active_tracks @ completed_tracks)"

section \<open>motion\_feature\_extractor: trajectory classification\<close>

datatype TrajectoryType = STATIONARY | LINEAR | MEANDERING | CIRCULAR | DARTING | UNKNOWN

record MotionMetrics =
  total_frames :: int
  total_distance :: real
  displacement_m :: real
  mean_speed :: real
  max_speed_m :: real
  min_speed_m :: real
  speed_std :: real
  mean_acceleration :: real
  max_acceleration :: real
  acceleration_events :: int
  mean_direction_change :: real
  max_direction_change :: real
  direction_changes :: int
  straightness_index :: real
  rest_count :: int
  total_rest_frames :: int
  mean_rest_duration :: real
  burst_count :: int
  mean_burst_speed :: real
  mean_burst_duration :: real

definition classify_trajectory :: "MotionMetrics \<Rightarrow> TrajectoryType \<times> real" where
  "classify_trajectory metrics =
     (if mean_speed metrics < 1 \<and> total_distance metrics < 50 then (STATIONARY, 0.9)
      else if burst_count metrics \<ge> 3 \<and> rest_count metrics \<ge> 2 then (DARTING, 0.8)
      else if straightness_index metrics > 0.7 \<and> direction_changes metrics < 5 then (LINEAR, 0.85)
      else if straightness_index metrics < 0.3
              \<and> speed_std metrics < mean_speed metrics * 0.5 then (CIRCULAR, 0.7)
      else if 0.2 < straightness_index metrics \<and> straightness_index metrics < 0.7
              \<and> direction_changes metrics \<ge> 5 then (MEANDERING, 0.75)
      else (UNKNOWN, 0.5))"

section \<open>Specification vocabulary and example inputs\<close>

text \<open>
  An accepted pair \<open>(d, b, x)\<close> of the merger and the candidate built from it: both
  indices in range, \<open>x\<close> the centroid distance of the two blobs and within the merge
  radius, the candidate coupled from exactly these two blobs.
\<close>

definition pair_ok ::
  "blob list \<Rightarrow> blob list \<Rightarrow> MergeParams \<Rightarrow> nat \<times> nat \<times> real \<Rightarrow> OrganismCandidate \<Rightarrow> bool" where
  "pair_ok dark bright params p c =
     (case p of (d, b, x) \<Rightarrow>
        d < length dark \<and> b < length bright
        \<and> x = euclidean (blob.centroid (dark ! d)) (blob.centroid (bright ! b))
        \<and> x \<le> merge_radius params
        \<and> candidate_type c = ''coupled''
        \<and> dark_blobs c = [dark ! d] \<and> bright_blobs c = [bright ! b])"

text \<open>
  The order and content of the merger's output for accepted pairs \<open>acc\<close>: the coupled
  candidates; then, for every dark blob in no pair, in input order, a candidate of type
  \<open>dark_only\<close> with the blob's centroid, box and area and the blob as its only
  component; then, for every bright blob in no pair, in input order, a candidate of type
  \<open>bright_only\<close> with the blob's centroid, box and area and the blob as its only
  component.
\<close>

definition merged_layout ::
  "blob list \<Rightarrow> blob list \<Rightarrow> int \<Rightarrow> (nat \<times> nat \<times> real) list \<Rightarrow>
   OrganismCandidate list \<Rightarrow> OrganismCandidate list" where
  "merged_layout dark bright fidx acc coupled =
     coupled
     @ map (\<lambda>d. \<lparr>OrganismCandidate.frame_idx = fidx,
                   OrganismCandidate.centroid = blob.centroid (dark ! d),
                   OrganismCandidate.bbox = blob.bbox (dark ! d),
                   total_area = blob.area (dark ! d),
                   dark_blobs = [dark ! d], bright_blobs = [],
                   candidate_type = ''dark_only''\<rparr>)
         (filter (\<lambda>d. d \<notin> fst ` set acc) [0..<length dark])
     @ map (\<lambda>b. \<lparr>OrganismCandidate.frame_idx = fidx,
                   OrganismCandidate.centroid = blob.centroid (bright ! b),
                   OrganismCandidate.bbox = blob.bbox (bright ! b),
                   total_area = blob.area (bright ! b),
                   dark_blobs = [], bright_blobs = [bright ! b],
                   candidate_type = ''bright_only''\<rparr>)
         (filter (\<lambda>b. b \<notin> (\<lambda>p. fst (snd p)) ` set acc) [0..<length bright])"

definition ex_dark :: "blob list" where
  "ex_dark = [\<lparr>blob.centroid = (0, 0), blob.bbox = (0, 0, 2, 2), blob.area = 4\<rparr>,
              \<lparr>blob.centroid = (10, 0), blob.bbox = (9, 0, 2, 2), blob.area = 4\<rparr>]"

definition ex_bright :: "blob list" where
  "ex_bright = [\<lparr>blob.centroid = (1, 0), blob.bbox = (1, 0, 3, 1), blob.area = 3\<rparr>]"

definition ex_merge_params :: MergeParams where
  "ex_merge_params = \<lparr>merge_radius = 2, min_separation = 10\<rparr>"

text \<open>Two bright blobs: the first next to the first dark blob of \<open>ex_dark\<close>, the second
  far from both dark blobs.\<close>

definition ex_bright_two :: "blob list" where
  "ex_bright_two = [\<lparr>blob.centroid = (1, 0), blob.bbox = (1, 0, 3, 1), blob.area = 3\<rparr>,
                    \<lparr>blob.centroid = (20, 0), blob.bbox = (19, 0, 2, 2), blob.area = 5\<rparr>]"

text \<open>The five conditions of \<open>classify_trajectory\<close>, by name.\<close>

definition stationary_rule :: "MotionMetrics \<Rightarrow> bool" where
  "stationary_rule m = (mean_speed m < 1 \<and> total_distance m < 50)"

definition darting_rule :: "MotionMetrics \<Rightarrow> bool" where
  "darting_rule m = (burst_count m \<ge> 3 \<and> rest_count m \<ge> 2)"

definition linear_rule :: "MotionMetrics \<Rightarrow> bool" where
  "linear_rule m = (straightness_index m > 0.7 \<and> direction_changes m < 5)"

definition circular_rule :: "MotionMetrics \<Rightarrow> bool" where
  "circular_rule m = (straightness_index m < 0.3 \<and> speed_std m < 0.5 * mean_speed m)"

definition meandering_rule :: "MotionMetrics \<Rightarrow> bool" where
  "meandering_rule m =
     (0.2 < straightness_index m \<and> straightness_index m < 0.7 \<and> direction_changes m \<ge> 5)"

definition rules_holding :: "MotionMetrics \<Rightarrow> nat" where
  "rules_holding m =
     length (filter (\<lambda>r. r m)
       [stationary_rule, darting_rule, linear_rule, circular_rule, meandering_rule])"

text \<open>
  The metrics that \<open>extract_motion_metrics\<close> computes for the positions
  \<open>(0, 0), (0.5, 0), (1, 0)\<close>: two steps of length \<open>0.5\<close> on a straight line.
\<close>

definition ex_metrics :: MotionMetrics where
  "ex_metrics =
     \<lparr>total_frames = 3, total_distance = 1, displacement_m = 1, mean_speed = 0.5,
      max_speed_m = 0.5, min_speed_m = 0.5, speed_std = 0, mean_acceleration = 0,
      max_acceleration = 0, acceleration_events = 0, mean_direction_change = 0,
      max_direction_change = 0, direction_changes = 0, straightness_index = 1,
      rest_count = 1, total_rest_frames = 2, mean_rest_duration = 2, burst_count = 0,
      mean_burst_speed = 0, mean_burst_duration = 0\<rparr>"

text \<open>
  Slow, short metrics with three bursts and two rests: once on a straight path without
  turns, once on a path of straightness \<open>0.25\<close> with even speed and five turns.
\<close>

definition ex_metrics_straight :: MotionMetrics where
  "ex_metrics_straight =
     \<lparr>total_frames = 21, total_distance = 10, displacement_m = 10, mean_speed = 0.5,
      max_speed_m = 1, min_speed_m = 0, speed_std = 0.4, mean_acceleration = 0.2,
      max_acceleration = 1, acceleration_events = 3, mean_direction_change = 0,
      max_direction_change = 0, direction_changes = 0, straightness_index = 1,
      rest_count = 2, total_rest_frames = 17, mean_rest_duration = 8.5, burst_count = 3,
      mean_burst_speed = 1, mean_burst_duration = 1\<rparr>"

definition ex_metrics_winding :: MotionMetrics where
  "ex_metrics_winding =
     \<lparr>total_frames = 21, total_distance = 10, displacement_m = 2.5, mean_speed = 0.5,
      max_speed_m = 0.8, min_speed_m = 0.4, speed_std = 0.1, mean_acceleration = 0.1,
      max_acceleration = 0.4, acceleration_events = 3, mean_direction_change = 1,
      max_direction_change = 2, direction_changes = 5, straightness_index = 0.25,
      rest_count = 2, total_rest_frames = 17, mean_rest_duration = 8.5, burst_count = 3,
      mean_burst_speed = 0.8, mean_burst_duration = 1\<rparr>"

text \<open>Metrics with a straightness between \<open>0.2\<close> and \<open>0.3\<close>, even speed and many turns.\<close>

definition ex_metrics_loop :: MotionMetrics where
  "ex_metrics_loop =
     \<lparr>total_frames = 40, total_distance = 200, displacement_m = 50, mean_speed = 5,
      max_speed_m = 6, min_speed_m = 4, speed_std = 1, mean_acceleration = 1,
      max_acceleration = 2, acceleration_events = 0, mean_direction_change = 1,
      max_direction_change = 2, direction_changes = 12, straightness_index = 0.25,
      rest_count = 0, total_rest_frames = 0, mean_rest_duration = 0, burst_count = 0,
      mean_burst_speed = 0, mean_burst_duration = 0\<rparr>"

text \<open>\<open>UnifiedTrack(track_id=n)\<close>: every other field at its dataclass default.\<close>

definition UnifiedTrack_init :: "int \<Rightarrow> UnifiedTrack" where
  "UnifiedTrack_init n =
     \<lparr>UnifiedTrack.track_id = n, UnifiedTrack.positions = [], UnifiedTrack.frames = [],
      UnifiedTrack.bboxes = [], sources = [], confidences = [], rtdetr_classes = [],
      UnifiedTrack.frames_since_detection = 0, UnifiedTrack.is_resting = False,
      UnifiedTrack.rest_zone_center = None, UnifiedTrack.rest_zone_radius = 100\<rparr>"

text \<open>Linear extrapolation from the last two positions: \<open>b + (b - a)\<close>.\<close>

definition extrapolate :: "point \<Rightarrow> point \<Rightarrow> point" where
  "extrapolate a b = (fst b + (fst b - fst a), snd b + (snd b - snd a))"

text \<open>The chained distance over consecutive positions and the mean distance per step.\<close>

definition path_length :: "point list \<Rightarrow> real" where
  "path_length ps = (\<Sum>i = 1..<length ps. euclidean (ps ! i) (ps ! (i - 1)))"

definition mean_step_speed :: "point list \<Rightarrow> real" where
  "mean_step_speed ps = (if length ps < 2 then 0 else path_length ps / (real (length ps) - 1))"

text \<open>The distance from the first position to the last.\<close>

definition net_displacement :: "point list \<Rightarrow> real" where
  "net_displacement ps = (if length ps < 2 then 0 else euclidean (last ps) (hd ps))"

text \<open>A unified track seen at \<open>(0, 0)\<close> and then at \<open>(1, 0)\<close>, and the same track after one
  frame without a detection.\<close>

definition ex_detection :: "int \<Rightarrow> point \<Rightarrow> UnifiedDetection" where
  "ex_detection fidx c =
     \<lparr>UnifiedDetection.frame_idx = fidx, UnifiedDetection.bbox = (0, 0, 2, 2),
      UnifiedDetection.centroid = c, UnifiedDetection.area = 4, rtdetr_conf = 0,
      motion_conf = 0.7, unified_conf = 0.35, source = MOTION_ONLY, rtdetr_class = None,
      motion_type = Some ''dark_only''\<rparr>"

definition ex_unified_track :: UnifiedTrack where
  "ex_unified_track =
     unified_update (unified_update (UnifiedTrack_init 1) (ex_detection 0 (0, 0)))
       (ex_detection 1 (1, 0))"

definition ex_unified_resting :: UnifiedTrack where
  "ex_unified_resting =
     ex_unified_track\<lparr>UnifiedTrack.frames_since_detection := 1,
       UnifiedTrack.is_resting := True, UnifiedTrack.rest_zone_center := Some (1, 0),
       UnifiedTrack.rest_zone_radius := 100\<rparr>"

text \<open>A robust track resting at \<open>(1, 0)\<close> after positions \<open>(0, 0)\<close> and \<open>(1, 0)\<close>.\<close>

definition ex_candidate :: "int \<Rightarrow> point \<Rightarrow> OrganismCandidate" where
  "ex_candidate fidx c =
     dark_only_candidate fidx \<lparr>blob.centroid = c, blob.bbox = (0, 0, 2, 2), blob.area = 4\<rparr>"

definition ex_robust_track :: RobustTrack where
  "ex_robust_track =
     update (update (RobustTrack_init 1) (ex_candidate 0 (0, 0)) 0) (ex_candidate 1 (1, 0)) 1"

text \<open>A unified track that walks back and forth between \<open>(0, 0)\<close> and \<open>(10, 0)\<close>.\<close>

definition ex_unified_loop :: UnifiedTrack where
  "ex_unified_loop =
     foldl unified_update (UnifiedTrack_init 1)
       [ex_detection 0 (0, 0), ex_detection 1 (10, 0), ex_detection 2 (0, 0),
        ex_detection 3 (10, 0), ex_detection 4 (0, 0)]"

text \<open>A robust track that moves three pixels to the right in each of five frames.\<close>

definition ex_robust_walk :: RobustTrack where
  "ex_robust_walk =
     foldl (\<lambda>t (f, c). update t (ex_candidate f c) f) (RobustTrack_init 1)
       [(0, (0, 0)), (1, (3, 0)), (2, (6, 0)), (3, (9, 0)), (4, (12, 0))]"

text \<open>A video of one frame with one dark blob.\<close>

definition ex_video_one :: "(blob list \<times> blob list) list" where
  "ex_video_one = [([\<lparr>blob.centroid = (0, 0), blob.bbox = (0, 0, 2, 2), blob.area = 4\<rparr>], [])]"

text \<open>
  A run of \<open>n\<close> consecutive frames in which a track gets no detection: \<open>n\<close> applications of
  the treatment of an unmatched track, as long as the track stays in the active list.
\<close>

fun misses :: "RobustTrackingParams \<Rightarrow> nat \<Rightarrow> RobustTrack \<Rightarrow> RobustTrack option" where
  "misses params 0 t = Some t"
| "misses params (Suc n) t =
     (case misses params n t of None \<Rightarrow> None | Some t' \<Rightarrow> age_track params t')"



text \<open>
  The record that the fuser is to emit for an appearance detection \<open>r\<close>, written out field
  by field. Both kinds carry the box, the centroid, the box area, the confidence and the
  class of \<open>r\<close>. Without a partner the record is appearance only, with motion confidence
  \<open>0\<close> and combined confidence \<open>confidence * rtdetr_weight\<close>. Fused with candidate \<open>j\<close> it
  has motion confidence \<open>0.7\<close>, the type of that candidate, and the combined confidence
  \<open>(confidence * rtdetr_weight + 0.7 * motion_weight) * both_detected_boost\<close> capped at
  \<open>1\<close>.
\<close>

definition appearance_output ::
  "int \<Rightarrow> FusionParams \<Rightarrow> OrganismCandidate list \<Rightarrow> RTDETRDetection \<Rightarrow> nat option \<Rightarrow> UnifiedDetection" where
  "appearance_output fidx params motion_candidates r jo =
     (case jo of
        None \<Rightarrow>
          \<lparr>UnifiedDetection.frame_idx = fidx,
           UnifiedDetection.bbox = RTDETRDetection.bbox r,
           UnifiedDetection.centroid = RTDETRDetection.centroid r,
           UnifiedDetection.area =
             real_of_int (fst (snd (snd (RTDETRDetection.bbox r)))
                            * snd (snd (snd (RTDETRDetection.bbox r)))),
           rtdetr_conf = confidence r, motion_conf = 0,
           unified_conf = confidence r * rtdetr_weight params,
           source = RTDETR_ONLY, rtdetr_class = Some (class_name r), motion_type = None\<rparr>
      | Some j \<Rightarrow>
          \<lparr>UnifiedDetection.frame_idx = fidx,
           UnifiedDetection.bbox = RTDETRDetection.bbox r,
           UnifiedDetection.centroid = RTDETRDetection.centroid r,
           UnifiedDetection.area =
             real_of_int (fst (snd (snd (RTDETRDetection.bbox r)))
                            * snd (snd (snd (RTDETRDetection.bbox r)))),
           rtdetr_conf = confidence r, motion_conf = 0.7,
           unified_conf =
             min 1 ((confidence r * rtdetr_weight params + 0.7 * motion_weight params)
                      * both_detected_boost params),
           source = BOTH_FUSED, rtdetr_class = Some (class_name r),
           motion_type = Some (candidate_type (motion_candidates ! j))\<rparr>)"

text \<open>
  The record that the fuser is to emit for a motion candidate \<open>m\<close> that no fusion consumed:
  the box, centroid, area and type of \<open>m\<close>, appearance confidence \<open>0\<close>, motion confidence
  \<open>0.7\<close> and combined confidence \<open>motion_only_base_conf * 0.7\<close>.
\<close>

definition motion_only_output ::
  "int \<Rightarrow> FusionParams \<Rightarrow> OrganismCandidate \<Rightarrow> UnifiedDetection" where
  "motion_only_output fidx params m =
     \<lparr>UnifiedDetection.frame_idx = fidx,
      UnifiedDetection.bbox = OrganismCandidate.bbox m,
      UnifiedDetection.centroid = OrganismCandidate.centroid m,
      UnifiedDetection.area = total_area m,
      rtdetr_conf = 0, motion_conf = 0.7,
      unified_conf = motion_only_base_conf params * 0.7,
      source = MOTION_ONLY, rtdetr_class = None, motion_type = Some (candidate_type m)\<rparr>"

text \<open>An appearance detection and a motion candidate that coincide, and a motion candidate
  whose box is disjoint and whose centroid is exactly \<open>distance_threshold = 50\<close> away.\<close>

definition ex_rtdetr :: RTDETRDetection where
  "ex_rtdetr = \<lparr>RTDETRDetection.frame_idx = 0, RTDETRDetection.bbox = (0, 0, 10, 10),
                 RTDETRDetection.centroid = (5, 5), confidence = 0.8, class_name = ''fish''\<rparr>"

definition ex_motion_same :: OrganismCandidate where
  "ex_motion_same =
     dark_only_candidate 0 \<lparr>blob.centroid = (5, 5), blob.bbox = (0, 0, 10, 10), blob.area = 100\<rparr>"

definition ex_motion_far :: OrganismCandidate where
  "ex_motion_far =
     dark_only_candidate 0 \<lparr>blob.centroid = (55, 5), blob.bbox = (50, 0, 10, 10), blob.area = 100\<rparr>"

text \<open>A second appearance detection and a second motion candidate, each far from
  everything else.\<close>

definition ex_rtdetr_lone :: RTDETRDetection where
  "ex_rtdetr_lone =
     \<lparr>RTDETRDetection.frame_idx = 0, RTDETRDetection.bbox = (200, 0, 10, 10),
      RTDETRDetection.centroid = (205, 5), confidence = 0.6, class_name = ''crab''\<rparr>"

definition ex_motion_elsewhere :: OrganismCandidate where
  "ex_motion_elsewhere =
     bright_only_candidate 0
       \<lparr>blob.centroid = (505, 5), blob.bbox = (500, 0, 10, 10), blob.area = 90\<rparr>"

text \<open>Eligibility and score of a motion candidate for an appearance detection, as the
  inner loop of \<open>fuse_detections\<close> computes them.\<close>

definition eligible :: "FusionParams \<Rightarrow> RTDETRDetection \<Rightarrow> OrganismCandidate \<Rightarrow> bool" where
  "eligible params r m =
     (calculate_iou (RTDETRDetection.bbox r) (OrganismCandidate.bbox m) \<ge> iou_threshold params
      \<or> euclidean (RTDETRDetection.centroid r) (OrganismCandidate.centroid m)
            \<le> distance_threshold params)"

definition pair_score :: "FusionParams \<Rightarrow> RTDETRDetection \<Rightarrow> OrganismCandidate \<Rightarrow> real" where
  "pair_score params r m =
     match_score params (calculate_iou (RTDETRDetection.bbox r) (OrganismCandidate.bbox m))
       (euclidean (RTDETRDetection.centroid r) (OrganismCandidate.centroid m))"

text \<open>Two robust tracks created in frame 0, one at \<open>(0, 0)\<close> and one far away.\<close>

definition ex_track_near :: RobustTrack where
  "ex_track_near = update (RobustTrack_init 1) (ex_candidate 0 (0, 0)) 0"

definition ex_track_away :: RobustTrack where
  "ex_track_away = update (RobustTrack_init 2) (ex_candidate 0 (1000, 0)) 0"

text \<open>
  Robust tracking parameters with a skip budget of one frame, and a video of four frames:
  a dark blob at \<open>(0, 0)\<close> in frame 0, nothing in frames 1 and 2, and the same blob again
  in frame 3.
\<close>

definition ex_params_skip_one :: RobustTrackingParams where
  "ex_params_skip_one = RobustTrackingParams_default\<lparr>max_skip_frames := 1\<rparr>"

definition ex_video_gap :: "(blob list \<times> blob list) list" where
  "ex_video_gap =
     [([\<lparr>blob.centroid = (0, 0), blob.bbox = (0, 0, 2, 2), blob.area = 4\<rparr>], []),
      ([], []),
      ([], []),
      ([\<lparr>blob.centroid = (0, 0), blob.bbox = (0, 0, 2, 2), blob.area = 4\<rparr>], [])]"

section \<open>Candidate merger: properties\<close>

lemma coupled_candidate_Inr:
  assumes "coupled_candidate fidx d b = Inr c"
  shows "candidate_type c = ''coupled'' \<and> dark_blobs c = [d] \<and> bright_blobs c = [b]"
  using assms
  by (auto simp: coupled_candidate_def Let_def split: if_splits prod.splits)

lemma coupled_candidate_total:
  assumes "blob.area d + blob.area b \<noteq> 0"
  shows "\<exists>c. coupled_candidate fidx d b = Inr c"
  using assms
  by (auto simp: coupled_candidate_def Let_def split: prod.splits)

lemma merge_pairs_mem:
  assumes "(d, b, x) \<in> set (merge_pairs dark bright params)"
  shows "d < length dark \<and> b < length bright
       \<and> x = euclidean (blob.centroid (dark ! d)) (blob.centroid (bright ! b))
       \<and> x \<le> merge_radius params"
  using assms by (auto simp: merge_pairs_def split: if_splits)

lemma greedy_couple_shape:
  assumes "greedy_couple dark bright fidx pairs (cands, ud, ub) = Inr (cands', ud', ub')"
  shows "\<exists>acc coupled. cands' = cands @ coupled
       \<and> ud' = ud \<union> fst ` set acc \<and> ub' = ub \<union> (\<lambda>p. fst (snd p)) ` set acc
       \<and> set acc \<subseteq> set pairs
       \<and> (sorted (map (\<lambda>p. snd (snd p)) pairs) \<longrightarrow> sorted (map (\<lambda>p. snd (snd p)) acc))
       \<and> distinct (map fst acc) \<and> distinct (map (\<lambda>p. fst (snd p)) acc)
       \<and> fst ` set acc \<inter> ud = {} \<and> (\<lambda>p. fst (snd p)) ` set acc \<inter> ub = {}
       \<and> list_all2 (\<lambda>(d, b, x) c. coupled_candidate fidx (dark ! d) (bright ! b) = Inr c) acc coupled"
  using assms
proof (induction pairs arbitrary: cands ud ub)
  case Nil
  then show ?case by (intro exI[of _ "[]"]) simp
next
  case (Cons p pairs)
  obtain d b x where p: "p = (d, b, x)" by (cases p) auto
  show ?case
  proof (cases "d \<notin> ud \<and> b \<notin> ub")
    case False
    with Cons.prems p have "greedy_couple dark bright fidx pairs (cands, ud, ub) = Inr (cands', ud', ub')"
      by auto
    from Cons.IH[OF this] obtain acc coupled where
      H: "cands' = cands @ coupled" "ud' = ud \<union> fst ` set acc" "ub' = ub \<union> (\<lambda>p. fst (snd p)) ` set acc"
       "set acc \<subseteq> set pairs" "sorted (map (\<lambda>p. snd (snd p)) pairs) \<longrightarrow> sorted (map (\<lambda>p. snd (snd p)) acc)"
       "distinct (map fst acc)" "distinct (map (\<lambda>p. fst (snd p)) acc)"
       "fst ` set acc \<inter> ud = {}" "(\<lambda>p. fst (snd p)) ` set acc \<inter> ub = {}"
       "list_all2 (\<lambda>(d, b, x) c. coupled_candidate fidx (dark ! d) (bright ! b) = Inr c) acc coupled"
      by blast
    show ?thesis
      apply (rule exI[of _ acc], rule exI[of _ coupled])
      using H by auto
  next
    case True
    with Cons.prems p obtain c where
      c: "coupled_candidate fidx (dark ! d) (bright ! b) = Inr c" and
      rec: "greedy_couple dark bright fidx pairs (cands @ [c], insert d ud, insert b ub) = Inr (cands', ud', ub')"
      by (auto split: sum.splits)
    from Cons.IH[OF rec] obtain acc coupled where
      H: "cands' = (cands @ [c]) @ coupled" "ud' = insert d ud \<union> fst ` set acc"
       "ub' = insert b ub \<union> (\<lambda>p. fst (snd p)) ` set acc"
       "set acc \<subseteq> set pairs" "sorted (map (\<lambda>p. snd (snd p)) pairs) \<longrightarrow> sorted (map (\<lambda>p. snd (snd p)) acc)"
       "distinct (map fst acc)" "distinct (map (\<lambda>p. fst (snd p)) acc)"
       "fst ` set acc \<inter> insert d ud = {}" "(\<lambda>p. fst (snd p)) ` set acc \<inter> insert b ub = {}"
       "list_all2 (\<lambda>(d, b, x) c. coupled_candidate fidx (dark ! d) (bright ! b) = Inr c) acc coupled"
      by blast
    have srt: "sorted (map (\<lambda>p. snd (snd p)) (p # pairs)) \<longrightarrow> sorted (map (\<lambda>p. snd (snd p)) (p # acc))"
      using H(4,5) by auto
    show ?thesis
      apply (rule exI[of _ "p # acc"], rule exI[of _ "c # coupled"])
      using H True c srt p by auto
  qed
qed

lemma greedy_couple_total:
  assumes "\<forall>(d, b, x) \<in> set pairs. blob.area (dark ! d) + blob.area (bright ! b) \<noteq> 0"
  shows "\<exists>st. greedy_couple dark bright fidx pairs (cands, ud, ub) = Inr st"
  using assms
proof (induction pairs arbitrary: cands ud ub)
  case Nil
  then show ?case by simp
next
  case (Cons p pairs)
  obtain d b x where p: "p = (d, b, x)" by (cases p) auto
  from Cons.prems p have nz: "blob.area (dark ! d) + blob.area (bright ! b) \<noteq> 0" by auto
  from coupled_candidate_total[OF nz] obtain c where
    c: "coupled_candidate fidx (dark ! d) (bright ! b) = Inr c" by blast
  from Cons.prems have rest: "\<forall>(d, b, x) \<in> set pairs. blob.area (dark ! d) + blob.area (bright ! b) \<noteq> 0"
    by auto
  show ?case using Cons.IH[OF rest] c p by auto
qed


lemma euclidean_same_y: "euclidean (a, y) (b, y) = \<bar>a - b\<bar>"
  by (simp add: euclidean_def)

lemma merge_total:
  assumes "\<forall>d<length dark. \<forall>b<length bright. blob.area (dark ! d) + blob.area (bright ! b) \<noteq> 0"
  shows "\<exists>out. merge_blobs_into_candidates dark bright fidx params = Inr out"
proof -
  let ?ps = "sort_key (\<lambda>x. snd (snd x)) (merge_pairs dark bright params)"
  have "\<forall>(d, b, x) \<in> set ?ps. blob.area (dark ! d) + blob.area (bright ! b) \<noteq> 0"
    using assms merge_pairs_mem by fastforce
  from greedy_couple_total[OF this] obtain st where
    "greedy_couple dark bright fidx ?ps ([], {}, {}) = Inr st" by blast
  then show ?thesis
    by (cases st) (auto simp: merge_blobs_into_candidates_def)
qed

text \<open>
  Claim C7. One dark and one bright blob whose centroids are within the merge radius
  (and whose areas do not sum to zero, so that the weighted average is defined) give
  exactly one candidate: it is \<open>coupled\<close>, its centroid is the area-weighted average
  of the two centroids, and its box is the union box of the two boxes.
\<close>

theorem merge_single_pair_coupled:
  assumes "euclidean (blob.centroid d) (blob.centroid b) \<le> merge_radius params"
      and "blob.area d + blob.area b \<noteq> 0"
  shows "merge_blobs_into_candidates [d] [b] fidx params =
           Inr [\<lparr>OrganismCandidate.frame_idx = fidx,
                 centroid = ((fst (blob.centroid d) * blob.area d + fst (blob.centroid b) * blob.area b)
                               / (blob.area d + blob.area b),
                             (snd (blob.centroid d) * blob.area d + snd (blob.centroid b) * blob.area b)
                               / (blob.area d + blob.area b)),
                 bbox = (case (blob.bbox d, blob.bbox b) of
                           ((dx, dy, dw, dh), (bx, by, bw, bh)) \<Rightarrow>
                             (min dx bx, min dy by,
                              max (dx + dw) (bx + bw) - min dx bx,
                              max (dy + dh) (by + bh) - min dy by)),
                 total_area = blob.area d + blob.area b,
                 dark_blobs = [d], bright_blobs = [b], candidate_type = ''coupled''\<rparr>]"
  using assms
  by (simp add: merge_blobs_into_candidates_def merge_pairs_def coupled_candidate_def Let_def
        split: prod.splits)


lemma merge_Inr_nonempty:
  assumes "merge_blobs_into_candidates dark bright fidx params = Inr out"
      and "dark \<noteq> [] \<and> bright \<noteq> []"
  shows "\<exists>cands ud ub.
      greedy_couple dark bright fidx (sort_key (\<lambda>x. snd (snd x)) (merge_pairs dark bright params)) ([], {}, {}) = Inr (cands, ud, ub)
    \<and> out = cands
               @ map (\<lambda>d. dark_only_candidate fidx (dark ! d))
                   (filter (\<lambda>d. d \<notin> ud) [0..<length dark])
               @ map (\<lambda>b. bright_only_candidate fidx (bright ! b))
                   (filter (\<lambda>b. b \<notin> ub) [0..<length bright])"
proof (cases "greedy_couple dark bright fidx (sort_key (\<lambda>x. snd (snd x)) (merge_pairs dark bright params)) ([], {}, {})")
  case (Inl e)
  with assms show ?thesis by (simp add: merge_blobs_into_candidates_def)
next
  case (Inr st)
  obtain cands ud ub where st: "st = (cands, ud, ub)" by (cases st) auto
  with Inr assms show ?thesis by (simp add: merge_blobs_into_candidates_def)
qed

lemma merge_Inr_empty:
  assumes "merge_blobs_into_candidates dark bright fidx params = Inr out"
      and "\<not> (dark \<noteq> [] \<and> bright \<noteq> [])"
  shows "out = map (\<lambda>d. dark_only_candidate fidx (dark ! d)) [0..<length dark]
               @ map (\<lambda>b. bright_only_candidate fidx (bright ! b)) [0..<length bright]"
  using assms by (simp add: merge_blobs_into_candidates_def)
lemma accepted_pair_facts:
  assumes "p \<in> set (merge_pairs dark bright params)"
      and "(case p of (d, b, x) \<Rightarrow> \<lambda>c. coupled_candidate fidx (dark ! d) (bright ! b) = Inr c) c"
  shows "(case p of (d, b, x) \<Rightarrow> \<lambda>c.
               d < length dark \<and> b < length bright
               \<and> x = euclidean (blob.centroid (dark ! d)) (blob.centroid (bright ! b))
               \<and> x \<le> merge_radius params
               \<and> candidate_type c = ''coupled''
               \<and> dark_blobs c = [dark ! d] \<and> bright_blobs c = [bright ! b]) c"
proof -
  obtain d b x where p: "p = (d, b, x)" by (cases p) auto
  from assms(2) p have c: "coupled_candidate fidx (dark ! d) (bright ! b) = Inr c" by simp
  from assms(1) p have m: "(d, b, x) \<in> set (merge_pairs dark bright params)" by simp
  from merge_pairs_mem[OF m] coupled_candidate_Inr[OF c] p show ?thesis by simp
qed


lemma list_all2_rightD:
  assumes "list_all2 P xs ys" and "y \<in> set ys"
  shows "\<exists>x \<in> set xs. P x y"
  using assms by (induction rule: list_all2_induct) auto

lemma merged_layout_code:
  "merged_layout dark bright fidx acc coupled =
     coupled
     @ map (\<lambda>d. dark_only_candidate fidx (dark ! d))
         (filter (\<lambda>d. d \<notin> fst ` set acc) [0..<length dark])
     @ map (\<lambda>b. bright_only_candidate fidx (bright ! b))
         (filter (\<lambda>b. b \<notin> (\<lambda>p. fst (snd p)) ` set acc) [0..<length bright])"
  by (simp add: merged_layout_def dark_only_candidate_def bright_only_candidate_def)

lemma merge_Inr_layout:
  assumes "merge_blobs_into_candidates dark bright fidx params = Inr out"
  shows "\<exists>acc coupled.
           out = merged_layout dark bright fidx acc coupled
         \<and> list_all2 (pair_ok dark bright params) acc coupled
         \<and> sorted (map (\<lambda>p. snd (snd p)) acc)
         \<and> distinct (map fst acc) \<and> distinct (map (\<lambda>p. fst (snd p)) acc)"
proof (cases "dark \<noteq> [] \<and> bright \<noteq> []")
  case False
  from merge_Inr_empty[OF assms False]
  have "out = merged_layout dark bright fidx [] []"
    by (simp add: merged_layout_code)
  then have "out = merged_layout dark bright fidx [] []
         \<and> list_all2 (pair_ok dark bright params) [] []
         \<and> sorted (map (\<lambda>p. snd (snd p)) ([] :: (nat \<times> nat \<times> real) list))
         \<and> distinct (map fst ([] :: (nat \<times> nat \<times> real) list))
         \<and> distinct (map (\<lambda>p. fst (snd p)) ([] :: (nat \<times> nat \<times> real) list))"
    by simp
  then show ?thesis by blast
next
  case True
  let ?ps = "sort_key (\<lambda>x. snd (snd x)) (merge_pairs dark bright params)"
  from merge_Inr_nonempty[OF assms True] obtain cands ud ub where
    g: "greedy_couple dark bright fidx ?ps ([], {}, {}) = Inr (cands, ud, ub)" and
    out: "out = cands
             @ map (\<lambda>d. dark_only_candidate fidx (dark ! d))
                 (filter (\<lambda>d. d \<notin> ud) [0..<length dark])
             @ map (\<lambda>b. bright_only_candidate fidx (bright ! b))
                 (filter (\<lambda>b. b \<notin> ub) [0..<length bright])"
    by blast
  from greedy_couple_shape[OF g] obtain acc coupled where
    H1: "cands = [] @ coupled" and H2: "ud = {} \<union> fst ` set acc"
    and H3: "ub = {} \<union> (\<lambda>p. fst (snd p)) ` set acc"
    and H4: "set acc \<subseteq> set ?ps"
    and H5: "sorted (map (\<lambda>p. snd (snd p)) ?ps) \<longrightarrow> sorted (map (\<lambda>p. snd (snd p)) acc)"
    and H6: "distinct (map fst acc)" and H7: "distinct (map (\<lambda>p. fst (snd p)) acc)"
    and H8: "list_all2 (\<lambda>(d, b, x) c. coupled_candidate fidx (dark ! d) (bright ! b) = Inr c) acc coupled"
    by blast
  have srt: "sorted (map (\<lambda>p. snd (snd p)) acc)"
    using H5 by (simp add: sorted_sort_key)
  have ok: "list_all2 (pair_ok dark bright params) acc coupled"
  proof (rule list.rel_mono_strong[OF H8])
    fix p c
    assume pin: "p \<in> set acc" and cin: "c \<in> set coupled" and
      pc: "(case p of (d, b, x) \<Rightarrow> \<lambda>c. coupled_candidate fidx (dark ! d) (bright ! b) = Inr c) c"
    from pin H4 have "p \<in> set (merge_pairs dark bright params)" by auto
    from accepted_pair_facts[OF this pc] show "pair_ok dark bright params p c"
      by (simp add: pair_ok_def split: prod.splits)
  qed
  have lay: "out = merged_layout dark bright fidx acc coupled"
    unfolding out H1 H2 H3 merged_layout_code by simp
  from lay ok srt H6 H7 show ?thesis by blast
qed

lemma merged_layout_components:
  assumes "list_all2 (pair_ok dark bright params) acc coupled"
      and "c \<in> set (merged_layout dark bright fidx acc coupled)"
  shows "candidate_type c \<in> {''dark_only'', ''bright_only'', ''coupled''}
       \<and> length (dark_blobs c) \<le> 1 \<and> length (bright_blobs c) \<le> 1"
proof -
  from assms(2) consider "c \<in> set coupled" | "\<exists>d. c = dark_only_candidate fidx (dark ! d)"
    | "\<exists>b. c = bright_only_candidate fidx (bright ! b)"
    unfolding merged_layout_code by auto
  then show ?thesis
  proof cases
    case 1
    from list_all2_rightD[OF assms(1) 1] obtain p where "pair_ok dark bright params p c" by blast
    then show ?thesis by (simp add: pair_ok_def split: prod.splits)
  next
    case 2
    then show ?thesis by (auto simp: dark_only_candidate_def)
  next
    case 3
    then show ?thesis by (auto simp: bright_only_candidate_def)
  qed
qed


text \<open>
  Claim C10. For any two blob lists the merger either fails on a pair of blobs whose
  areas sum to zero, or returns the coupled candidates in ascending order of their pair
  distance, then the unpaired dark blobs in input order, each as a candidate of type
  \<open>dark_only\<close> made of that blob alone, then the unpaired bright blobs in input order,
  each as a candidate of type \<open>bright_only\<close> made of that blob alone. No blob is in two
  pairs, and every candidate has at most one dark and at most one bright blob and one
  of the three types \<open>dark_only\<close>, \<open>bright_only\<close>, \<open>coupled\<close>.
\<close>

theorem merge_output_structure:
  "case merge_blobs_into_candidates dark bright fidx params of
     Inl e \<Rightarrow> \<exists>d<length dark. \<exists>b<length bright. blob.area (dark ! d) + blob.area (bright ! b) = 0
   | Inr out \<Rightarrow>
       \<exists>acc coupled.
           out = merged_layout dark bright fidx acc coupled
         \<and> list_all2 (pair_ok dark bright params) acc coupled
         \<and> sorted (map (\<lambda>p. snd (snd p)) acc)
         \<and> distinct (map fst acc) \<and> distinct (map (\<lambda>p. fst (snd p)) acc)
         \<and> (\<forall>c \<in> set out. candidate_type c \<in> {''dark_only'', ''bright_only'', ''coupled''}
                \<and> length (dark_blobs c) \<le> 1 \<and> length (bright_blobs c) \<le> 1)"
proof (cases "merge_blobs_into_candidates dark bright fidx params")
  case (Inl e)
  have "\<exists>d<length dark. \<exists>b<length bright. blob.area (dark ! d) + blob.area (bright ! b) = 0"
  proof (rule ccontr)
    assume "\<not> ?thesis"
    then have "\<forall>d<length dark. \<forall>b<length bright. blob.area (dark ! d) + blob.area (bright ! b) \<noteq> 0"
      by blast
    from merge_total[OF this, of fidx params] Inl show False by simp
  qed
  with Inl show ?thesis by simp
next
  case (Inr out)
  from merge_Inr_layout[OF Inr] obtain acc coupled where
    L: "out = merged_layout dark bright fidx acc coupled"
    and ok: "list_all2 (pair_ok dark bright params) acc coupled"
    and rest: "sorted (map (\<lambda>p. snd (snd p)) acc)" "distinct (map fst acc)"
      "distinct (map (\<lambda>p. fst (snd p)) acc)"
    by blast
  have comp: "\<forall>c \<in> set out. candidate_type c \<in> {''dark_only'', ''bright_only'', ''coupled''}
                \<and> length (dark_blobs c) \<le> 1 \<and> length (bright_blobs c) \<le> 1"
    using merged_layout_components[OF ok] unfolding L by blast
  from L ok rest comp have "\<exists>acc coupled.
           out = merged_layout dark bright fidx acc coupled
         \<and> list_all2 (pair_ok dark bright params) acc coupled
         \<and> sorted (map (\<lambda>p. snd (snd p)) acc)
         \<and> distinct (map fst acc) \<and> distinct (map (\<lambda>p. fst (snd p)) acc)
         \<and> (\<forall>c \<in> set out. candidate_type c \<in> {''dark_only'', ''bright_only'', ''coupled''}
                \<and> length (dark_blobs c) \<le> 1 \<and> length (bright_blobs c) \<le> 1)"
    by blast
  with Inr show ?thesis by simp
qed

lemma ex_merge_eval:
  "merge_blobs_into_candidates ex_dark ex_bright_two 0 ex_merge_params =
     Inr [\<lparr>OrganismCandidate.frame_idx = 0, OrganismCandidate.centroid = (3 / 7, 0),
           OrganismCandidate.bbox = (0, 0, 4, 2), total_area = 7,
           dark_blobs = [ex_dark ! 0], bright_blobs = [ex_bright_two ! 0],
           candidate_type = ''coupled''\<rparr>,
          \<lparr>OrganismCandidate.frame_idx = 0, OrganismCandidate.centroid = (10, 0),
           OrganismCandidate.bbox = (9, 0, 2, 2), total_area = 4,
           dark_blobs = [ex_dark ! 1], bright_blobs = [],
           candidate_type = ''dark_only''\<rparr>,
          \<lparr>OrganismCandidate.frame_idx = 0, OrganismCandidate.centroid = (20, 0),
           OrganismCandidate.bbox = (19, 0, 2, 2), total_area = 5,
           dark_blobs = [], bright_blobs = [ex_bright_two ! 1],
           candidate_type = ''bright_only''\<rparr>]"
  by (simp add: merge_blobs_into_candidates_def merge_pairs_def ex_dark_def ex_bright_two_def
        ex_merge_params_def euclidean_same_y coupled_candidate_def dark_only_candidate_def
        bright_only_candidate_def upt_rec)

theorem merge_output_structure_witness:
  "merge_blobs_into_candidates ex_dark ex_bright_two 0 ex_merge_params =
     Inr [\<lparr>OrganismCandidate.frame_idx = 0, OrganismCandidate.centroid = (3 / 7, 0),
           OrganismCandidate.bbox = (0, 0, 4, 2), total_area = 7,
           dark_blobs = [ex_dark ! 0], bright_blobs = [ex_bright_two ! 0],
           candidate_type = ''coupled''\<rparr>,
          \<lparr>OrganismCandidate.frame_idx = 0, OrganismCandidate.centroid = (10, 0),
           OrganismCandidate.bbox = (9, 0, 2, 2), total_area = 4,
           dark_blobs = [ex_dark ! 1], bright_blobs = [],
           candidate_type = ''dark_only''\<rparr>,
          \<lparr>OrganismCandidate.frame_idx = 0, OrganismCandidate.centroid = (20, 0),
           OrganismCandidate.bbox = (19, 0, 2, 2), total_area = 5,
           dark_blobs = [], bright_blobs = [ex_bright_two ! 1],
           candidate_type = ''bright_only''\<rparr>]
   \<and> (\<exists>acc coupled.
       [\<lparr>OrganismCandidate.frame_idx = 0, OrganismCandidate.centroid = (3 / 7, 0),
         OrganismCandidate.bbox = (0, 0, 4, 2), total_area = 7,
         dark_blobs = [ex_dark ! 0], bright_blobs = [ex_bright_two ! 0],
         candidate_type = ''coupled''\<rparr>,
        \<lparr>OrganismCandidate.frame_idx = 0, OrganismCandidate.centroid = (10, 0),
         OrganismCandidate.bbox = (9, 0, 2, 2), total_area = 4,
         dark_blobs = [ex_dark ! 1], bright_blobs = [],
         candidate_type = ''dark_only''\<rparr>,
        \<lparr>OrganismCandidate.frame_idx = 0, OrganismCandidate.centroid = (20, 0),
         OrganismCandidate.bbox = (19, 0, 2, 2), total_area = 5,
         dark_blobs = [], bright_blobs = [ex_bright_two ! 1],
         candidate_type = ''bright_only''\<rparr>]
         = merged_layout ex_dark ex_bright_two 0 acc coupled
     \<and> list_all2 (pair_ok ex_dark ex_bright_two ex_merge_params) acc coupled
     \<and> sorted (map (\<lambda>p. snd (snd p)) acc)
     \<and> distinct (map fst acc) \<and> distinct (map (\<lambda>p. fst (snd p)) acc))"
proof -
  from merge_output_structure[of ex_dark ex_bright_two 0 ex_merge_params]
  have "\<exists>acc coupled.
       [\<lparr>OrganismCandidate.frame_idx = 0, OrganismCandidate.centroid = (3 / 7, 0),
         OrganismCandidate.bbox = (0, 0, 4, 2), total_area = 7,
         dark_blobs = [ex_dark ! 0], bright_blobs = [ex_bright_two ! 0],
         candidate_type = ''coupled''\<rparr>,
        \<lparr>OrganismCandidate.frame_idx = 0, OrganismCandidate.centroid = (10, 0),
         OrganismCandidate.bbox = (9, 0, 2, 2), total_area = 4,
         dark_blobs = [ex_dark ! 1], bright_blobs = [],
         candidate_type = ''dark_only''\<rparr>,
        \<lparr>OrganismCandidate.frame_idx = 0, OrganismCandidate.centroid = (20, 0),
         OrganismCandidate.bbox = (19, 0, 2, 2), total_area = 5,
         dark_blobs = [], bright_blobs = [ex_bright_two ! 1],
         candidate_type = ''bright_only''\<rparr>]
         = merged_layout ex_dark ex_bright_two 0 acc coupled
     \<and> list_all2 (pair_ok ex_dark ex_bright_two ex_merge_params) acc coupled
     \<and> sorted (map (\<lambda>p. snd (snd p)) acc)
     \<and> distinct (map fst acc) \<and> distinct (map (\<lambda>p. fst (snd p)) acc)"
    unfolding ex_merge_eval sum.case by blast
  with ex_merge_eval show ?thesis by (rule conjI)
qed

theorem merge_single_pair_coupled_witness:
  "euclidean (blob.centroid (ex_dark ! 0)) (blob.centroid (ex_bright ! 0))
     \<le> merge_radius ex_merge_params
   \<and> blob.area (ex_dark ! 0) + blob.area (ex_bright ! 0) \<noteq> 0
   \<and> merge_blobs_into_candidates [ex_dark ! 0] [ex_bright ! 0] 0 ex_merge_params =
       Inr [\<lparr>OrganismCandidate.frame_idx = 0, OrganismCandidate.centroid = (3 / 7, 0),
             OrganismCandidate.bbox = (0, 0, 4, 2), total_area = 7,
             dark_blobs = [ex_dark ! 0], bright_blobs = [ex_bright ! 0],
             candidate_type = ''coupled''\<rparr>]"
proof -
  have h1: "euclidean (blob.centroid (ex_dark ! 0)) (blob.centroid (ex_bright ! 0))
              \<le> merge_radius ex_merge_params"
    by (simp add: ex_dark_def ex_bright_def ex_merge_params_def euclidean_same_y)
  have h2: "blob.area (ex_dark ! 0) + blob.area (ex_bright ! 0) \<noteq> 0"
    by (simp add: ex_dark_def ex_bright_def)
  from merge_single_pair_coupled[OF h1 h2, of 0] h1 h2 show ?thesis
    by (simp add: ex_dark_def ex_bright_def)
qed

section \<open>Trajectory classification: properties\<close>

text \<open>
  Claim C9 (amended). The classifier applies the rules in the order stationary, darting,
  linear, circular, meandering, unknown, and the first rule that holds decides the
  type. Of the five rules only linear excludes circular and meandering; each of the
  other eight pairs of rules holds together for some metrics record, and then the
  order decides.
\<close>

theorem classify_trajectory_priority:
  "classify_trajectory m =
     (if stationary_rule m then (STATIONARY, 0.9)
      else if darting_rule m then (DARTING, 0.8)
      else if linear_rule m then (LINEAR, 0.85)
      else if circular_rule m then (CIRCULAR, 0.7)
      else if meandering_rule m then (MEANDERING, 0.75)
      else (UNKNOWN, 0.5))
   \<and> (fst (classify_trajectory m) = STATIONARY \<longleftrightarrow> stationary_rule m)
   \<and> (fst (classify_trajectory m) = DARTING \<longleftrightarrow> \<not> stationary_rule m \<and> darting_rule m)
   \<and> (fst (classify_trajectory m) = LINEAR \<longleftrightarrow>
        \<not> stationary_rule m \<and> \<not> darting_rule m \<and> linear_rule m)
   \<and> (fst (classify_trajectory m) = CIRCULAR \<longleftrightarrow>
        \<not> stationary_rule m \<and> \<not> darting_rule m \<and> \<not> linear_rule m \<and> circular_rule m)
   \<and> (fst (classify_trajectory m) = MEANDERING \<longleftrightarrow>
        \<not> stationary_rule m \<and> \<not> darting_rule m \<and> \<not> linear_rule m \<and> \<not> circular_rule m
        \<and> meandering_rule m)
   \<and> (fst (classify_trajectory m) = UNKNOWN \<longleftrightarrow> rules_holding m = 0)
   \<and> \<not> (linear_rule m \<and> circular_rule m)
   \<and> \<not> (linear_rule m \<and> meandering_rule m)
   \<and> (\<exists>a. stationary_rule a \<and> darting_rule a)
   \<and> (\<exists>a. stationary_rule a \<and> linear_rule a)
   \<and> (\<exists>a. stationary_rule a \<and> circular_rule a)
   \<and> (\<exists>a. stationary_rule a \<and> meandering_rule a)
   \<and> (\<exists>a. darting_rule a \<and> linear_rule a)
   \<and> (\<exists>a. darting_rule a \<and> circular_rule a)
   \<and> (\<exists>a. darting_rule a \<and> meandering_rule a)
   \<and> (\<exists>a. circular_rule a \<and> meandering_rule a)"
proof -
  have order: "classify_trajectory m =
     (if stationary_rule m then (STATIONARY, 0.9)
      else if darting_rule m then (DARTING, 0.8)
      else if linear_rule m then (LINEAR, 0.85)
      else if circular_rule m then (CIRCULAR, 0.7)
      else if meandering_rule m then (MEANDERING, 0.75)
      else (UNKNOWN, 0.5))
   \<and> (fst (classify_trajectory m) = STATIONARY \<longleftrightarrow> stationary_rule m)
   \<and> (fst (classify_trajectory m) = DARTING \<longleftrightarrow> \<not> stationary_rule m \<and> darting_rule m)
   \<and> (fst (classify_trajectory m) = LINEAR \<longleftrightarrow>
        \<not> stationary_rule m \<and> \<not> darting_rule m \<and> linear_rule m)
   \<and> (fst (classify_trajectory m) = CIRCULAR \<longleftrightarrow>
        \<not> stationary_rule m \<and> \<not> darting_rule m \<and> \<not> linear_rule m \<and> circular_rule m)
   \<and> (fst (classify_trajectory m) = MEANDERING \<longleftrightarrow>
        \<not> stationary_rule m \<and> \<not> darting_rule m \<and> \<not> linear_rule m \<and> \<not> circular_rule m
        \<and> meandering_rule m)
   \<and> (fst (classify_trajectory m) = UNKNOWN \<longleftrightarrow> rules_holding m = 0)
   \<and> \<not> (linear_rule m \<and> circular_rule m)
   \<and> \<not> (linear_rule m \<and> meandering_rule m)"
    by (simp add: classify_trajectory_def stationary_rule_def darting_rule_def linear_rule_def
          circular_rule_def meandering_rule_def rules_holding_def mult.commute)
  have s: "stationary_rule ex_metrics_straight" "darting_rule ex_metrics_straight"
    "linear_rule ex_metrics_straight"
    by (simp_all add: stationary_rule_def darting_rule_def linear_rule_def
          ex_metrics_straight_def)
  have w: "stationary_rule ex_metrics_winding" "darting_rule ex_metrics_winding"
    "circular_rule ex_metrics_winding" "meandering_rule ex_metrics_winding"
    by (simp_all add: stationary_rule_def darting_rule_def circular_rule_def
          meandering_rule_def ex_metrics_winding_def)
  have p1: "\<exists>a. stationary_rule a \<and> darting_rule a" using s by blast
  have p2: "\<exists>a. stationary_rule a \<and> linear_rule a" using s by blast
  have p3: "\<exists>a. stationary_rule a \<and> circular_rule a" using w by blast
  have p4: "\<exists>a. stationary_rule a \<and> meandering_rule a" using w by blast
  have p5: "\<exists>a. darting_rule a \<and> linear_rule a" using s by blast
  have p6: "\<exists>a. darting_rule a \<and> circular_rule a" using w by blast
  have p7: "\<exists>a. darting_rule a \<and> meandering_rule a" using w by blast
  have p8: "\<exists>a. circular_rule a \<and> meandering_rule a" using w by blast
  from order p1 p2 p3 p4 p5 p6 p7 p8 show ?thesis
    by (elim conjE) (intro conjI; assumption)
qed

theorem classify_trajectory_priority_witness:
  "stationary_rule ex_metrics \<and> linear_rule ex_metrics
   \<and> classify_trajectory ex_metrics = (STATIONARY, 0.9)
   \<and> \<not> stationary_rule ex_metrics_loop \<and> \<not> darting_rule ex_metrics_loop
   \<and> \<not> linear_rule ex_metrics_loop \<and> circular_rule ex_metrics_loop
   \<and> meandering_rule ex_metrics_loop
   \<and> classify_trajectory ex_metrics_loop = (CIRCULAR, 0.7)
   \<and> stationary_rule ex_metrics_straight \<and> darting_rule ex_metrics_straight
   \<and> linear_rule ex_metrics_straight
   \<and> classify_trajectory ex_metrics_straight = (STATIONARY, 0.9)
   \<and> stationary_rule ex_metrics_winding \<and> darting_rule ex_metrics_winding
   \<and> circular_rule ex_metrics_winding \<and> meandering_rule ex_metrics_winding
   \<and> classify_trajectory ex_metrics_winding = (STATIONARY, 0.9)"
proof -
  have a: "stationary_rule ex_metrics" "linear_rule ex_metrics"
    by (simp_all add: stationary_rule_def linear_rule_def ex_metrics_def)
  have b: "\<not> stationary_rule ex_metrics_loop" "\<not> darting_rule ex_metrics_loop"
     "\<not> linear_rule ex_metrics_loop" "circular_rule ex_metrics_loop"
     "meandering_rule ex_metrics_loop"
    by (simp_all add: stationary_rule_def darting_rule_def linear_rule_def circular_rule_def
          meandering_rule_def ex_metrics_loop_def)
  have s: "stationary_rule ex_metrics_straight" "darting_rule ex_metrics_straight"
    "linear_rule ex_metrics_straight"
    by (simp_all add: stationary_rule_def darting_rule_def linear_rule_def
          ex_metrics_straight_def)
  have w: "stationary_rule ex_metrics_winding" "darting_rule ex_metrics_winding"
    "circular_rule ex_metrics_winding" "meandering_rule ex_metrics_winding"
    by (simp_all add: stationary_rule_def darting_rule_def circular_rule_def
          meandering_rule_def ex_metrics_winding_def)
  from conjunct1[OF classify_trajectory_priority[of ex_metrics]] a
  have c: "classify_trajectory ex_metrics = (STATIONARY, 0.9)" by simp
  from conjunct1[OF classify_trajectory_priority[of ex_metrics_loop]] b
  have d: "classify_trajectory ex_metrics_loop = (CIRCULAR, 0.7)" by simp
  from conjunct1[OF classify_trajectory_priority[of ex_metrics_straight]] s
  have e: "classify_trajectory ex_metrics_straight = (STATIONARY, 0.9)" by simp
  from conjunct1[OF classify_trajectory_priority[of ex_metrics_winding]] w
  have f: "classify_trajectory ex_metrics_winding = (STATIONARY, 0.9)" by simp
  from a b c d e f s w show ?thesis by simp
qed

theorem rules_not_exclusive_counterexample:
  "\<not> rules_holding ex_metrics \<le> 1"
  by (simp add: rules_holding_def stationary_rule_def darting_rule_def linear_rule_def
        circular_rule_def meandering_rule_def ex_metrics_def)

section \<open>Invariants of the frame loop\<close>

text \<open>
  A property of tracks that \<open>update\<close> and the treatment of unmatched tracks preserve, and
  that holds of a new track, holds of every track in every active list.
\<close>

lemma in_set_map_filter:
  "y \<in> set (List.map_filter f xs) \<longleftrightarrow> (\<exists>x \<in> set xs. f x = Some y)"
  by (induction xs) (auto split: option.splits)

lemma greedy_match_preserves:
  assumes upd: "\<And>t c. P t \<Longrightarrow> P (update t c fidx)"
      and "\<forall>t \<in> set tracks. P t"
      and "greedy_match candidates fidx pairs (tracks, mc, mt) = (tracks', mc', mt')"
  shows "\<forall>t \<in> set tracks'. P t"
  using assms(2,3)
proof (induction pairs arbitrary: tracks mc mt)
  case Nil
  then show ?case by simp
next
  case (Cons p pairs)
  obtain c_idx t_idx x where p: "p = (c_idx, t_idx, x)" by (cases p) auto
  show ?case
  proof (cases "c_idx \<notin> mc \<and> t_idx \<notin> mt")
    case True
    let ?tr = "tracks[t_idx := update (tracks ! t_idx) (candidates ! c_idx) fidx]"
    have "\<forall>t \<in> set ?tr. P t"
    proof (cases "t_idx < length tracks")
      case True
      then have "P (update (tracks ! t_idx) (candidates ! c_idx) fidx)"
        using upd Cons.prems(1) by simp
      moreover have "set ?tr \<subseteq> insert (update (tracks ! t_idx) (candidates ! c_idx) fidx) (set tracks)"
        by (rule set_update_subset_insert)
      ultimately show ?thesis using Cons.prems(1) by blast
    next
      case False
      then have "?tr = tracks" by (simp add: list_update_beyond)
      with Cons.prems(1) show ?thesis by simp
    qed
    moreover from Cons.prems(2) p True
    have "greedy_match candidates fidx pairs (?tr, insert c_idx mc, insert t_idx mt) = (tracks', mc', mt')"
      by simp
    ultimately show ?thesis using Cons.IH by blast
  next
    case False
    with Cons.prems(2) p
    have "greedy_match candidates fidx pairs (tracks, mc, mt) = (tracks', mc', mt')"
      by auto
    with Cons.IH Cons.prems(1) show ?thesis by blast
  qed
qed

lemma greedy_match_length:
  assumes "greedy_match candidates fidx pairs (tracks, mc, mt) = (tracks', mc', mt')"
  shows "length tracks' = length tracks"
  using assms
proof (induction pairs arbitrary: tracks mc mt)
  case Nil
  then show ?case by simp
next
  case (Cons p pairs)
  obtain c_idx t_idx x where p: "p = (c_idx, t_idx, x)" by (cases p) auto
  show ?case
  proof (cases "c_idx \<notin> mc \<and> t_idx \<notin> mt")
    case True
    with Cons.prems p
    have "greedy_match candidates fidx pairs
            (tracks[t_idx := update (tracks ! t_idx) (candidates ! c_idx) fidx],
             insert c_idx mc, insert t_idx mt) = (tracks', mc', mt')"
      by simp
    from Cons.IH[OF this] show ?thesis by simp
  next
    case False
    with Cons.prems p
    have "greedy_match candidates fidx pairs (tracks, mc, mt) = (tracks', mc', mt')"
      by auto
    from Cons.IH[OF this] show ?thesis .
  qed
qed

lemma match_candidates_preserves:
  assumes upd: "\<And>t c. P t \<Longrightarrow> P (update t c fidx)"
      and age: "\<And>t t'. P t \<Longrightarrow> age_track params t = Some t' \<Longrightarrow> P t'"
      and all: "\<forall>t \<in> set tracks. P t"
      and m: "match_candidates_to_tracks candidates tracks fidx params = (active, unmatched)"
  shows "\<forall>t \<in> set active. P t"
proof (cases "tracks = []")
  case True
  with m show ?thesis by (simp add: match_candidates_to_tracks_def)
next
  case False
  note ne = this
  show ?thesis
  proof (cases "candidates = []")
    case True
    with m ne have act0: "active = List.map_filter (age_track params) tracks"
      by (simp add: match_candidates_to_tracks_def)
    show ?thesis
    proof
      fix t assume "t \<in> set active"
      with act0 obtain x where x: "x \<in> set tracks" "age_track params x = Some t"
        by (auto simp: in_set_map_filter)
      from all x(1) have "P x" by simp
      from age[OF this x(2)] show "P t" .
    qed
  next
    case False
    let ?ps = "sort_key (\<lambda>x. snd (snd x)) (association_pairs candidates tracks params)"
    obtain tracks' mc mt where g: "greedy_match candidates fidx ?ps (tracks, {}, {}) = (tracks', mc, mt)"
      by (cases "greedy_match candidates fidx ?ps (tracks, {}, {})") auto
    have P': "\<forall>t \<in> set tracks'. P t"
    proof (rule greedy_match_preserves[where P = P, OF _ all g])
      show "\<And>t c. P t \<Longrightarrow> P (update t c fidx)" by (rule upd)
    qed
    from m ne False g have act: "active =
        List.map_filter (\<lambda>t_idx. if t_idx \<notin> mt then age_track params (tracks' ! t_idx) else None)
           [0..<length tracks']
        @ map (\<lambda>t_idx. tracks' ! t_idx) (filter (\<lambda>t_idx. t_idx \<in> mt) [0..<length tracks'])"
      by (simp add: match_candidates_to_tracks_def)
    show ?thesis
    proof
      fix t assume "t \<in> set active"
      then consider i where "i < length tracks'" "age_track params (tracks' ! i) = Some t"
        | i where "i < length tracks'" "t = tracks' ! i"
        unfolding act by (auto simp: in_set_map_filter split: if_splits)
      then show "P t"
      proof cases
        case 1
        from P' 1(1) have "P (tracks' ! i)" by simp
        from age[OF this 1(2)] show ?thesis .
      next
        case 2
        with P' show ?thesis by simp
      qed
    qed
  qed
qed

lemma new_tracks_preserves:
  assumes upd: "\<And>t c. P t \<Longrightarrow> P (update t c fidx)"
      and init: "\<And>n. P (RobustTrack_init n)"
      and "\<forall>t \<in> set active. P t"
      and "new_tracks cs fidx (active, n) = (active', n')"
  shows "\<forall>t \<in> set active'. P t"
  using assms(3,4)
proof (induction cs arbitrary: active n)
  case Nil
  then show ?case by simp
next
  case (Cons c cs)
  from Cons.prems(2) have
    "new_tracks cs fidx (active @ [update (RobustTrack_init n) c fidx], n + 1) = (active', n')"
    by simp
  moreover have "\<forall>t \<in> set (active @ [update (RobustTrack_init n) c fidx]). P t"
    using Cons.prems(1) upd init by auto
  ultimately show ?case using Cons.IH by blast
qed

lemma process_frames_preserves:
  assumes upd: "\<And>t c f. P t \<Longrightarrow> P (update t c f)"
      and age: "\<And>t t'. P t \<Longrightarrow> age_track tp t = Some t' \<Longrightarrow> P t'"
      and init: "\<And>n. P (RobustTrack_init n)"
      and "\<forall>t \<in> set active. P t"
      and "process_frames video fidx mp tp (active, n) = Inr (active', n')"
  shows "\<forall>t \<in> set active'. P t"
  using assms(4,5)
proof (induction video arbitrary: fidx active n)
  case Nil
  then show ?case by simp
next
  case (Cons fr video)
  obtain dark bright where fr: "fr = (dark, bright)" by (cases fr) auto
  from Cons.prems(2) fr obtain candidates where
    c: "merge_blobs_into_candidates dark bright fidx mp = Inr candidates"
    by (cases "merge_blobs_into_candidates dark bright fidx mp") auto
  obtain act1 unmatched where
    m: "match_candidates_to_tracks candidates active fidx tp = (act1, unmatched)"
    by (cases "match_candidates_to_tracks candidates active fidx tp") auto
  obtain act2 n2 where nt: "new_tracks unmatched fidx (act1, n) = (act2, n2)"
    by (cases "new_tracks unmatched fidx (act1, n)") auto
  from Cons.prems(2) fr c m nt have
    rec: "process_frames video (fidx + 1) mp tp (act2, n2) = Inr (active', n')"
    by simp
  have a1: "\<forall>t \<in> set act1. P t"
  proof (rule match_candidates_preserves[where P = P, OF _ _ Cons.prems(1) m])
    show "\<And>t c. P t \<Longrightarrow> P (update t c fidx)" by (rule upd)
    show "\<And>t t'. P t \<Longrightarrow> age_track tp t = Some t' \<Longrightarrow> P t'" by (rule age)
  qed
  have "\<forall>t \<in> set act2. P t"
  proof (rule new_tracks_preserves[where P = P, OF _ _ a1 nt])
    show "\<And>t c. P t \<Longrightarrow> P (update t c fidx)" by (rule upd)
    show "\<And>n. P (RobustTrack_init n)" by (rule init)
  qed
  from Cons.IH[OF this rec] show ?case .
qed

section \<open>Predicted position\<close>

text \<open>
  Claim C3 (amended). In the robust tracker the prediction of a track that is resting and
  has a rest-zone centre is that centre; otherwise it is the last position plus the last
  step when there are at least two positions, the last position when there is exactly
  one, and the origin when there is none. In the unified tracker the prediction is
  given by the same three cases on the position history whether or not the track is
  resting. Neither function has a failing case.
\<close>

theorem predicted_position_cases:
  "(RobustTrack.is_resting t \<and> RobustTrack.rest_zone_center t = Some z
      \<longrightarrow> predicted_position t = z)
   \<and> (\<not> (RobustTrack.is_resting t \<and> RobustTrack.rest_zone_center t \<noteq> None) \<longrightarrow>
        (\<forall>ps a b. RobustTrack.positions t = ps @ [a, b] \<longrightarrow> predicted_position t = extrapolate a b)
      \<and> (\<forall>a. RobustTrack.positions t = [a] \<longrightarrow> predicted_position t = a)
      \<and> (RobustTrack.positions t = [] \<longrightarrow> predicted_position t = (0, 0)))
   \<and> (\<forall>ps a b. UnifiedTrack.positions u = ps @ [a, b]
         \<longrightarrow> unified_predicted_position u = extrapolate a b)
   \<and> (\<forall>a. UnifiedTrack.positions u = [a] \<longrightarrow> unified_predicted_position u = a)
   \<and> (UnifiedTrack.positions u = [] \<longrightarrow> unified_predicted_position u = (0, 0))"
proof -
  have nth2: "(ps @ [a, b]) ! (length ps) = a" for ps :: "point list" and a b
    by (simp add: nth_append)
  have r1: "RobustTrack.is_resting t \<and> RobustTrack.rest_zone_center t = Some z
      \<longrightarrow> predicted_position t = z"
    by (simp add: predicted_position_def)
  have r2: "\<not> (RobustTrack.is_resting t \<and> RobustTrack.rest_zone_center t \<noteq> None) \<longrightarrow>
        (\<forall>ps a b. RobustTrack.positions t = ps @ [a, b] \<longrightarrow> predicted_position t = extrapolate a b)
      \<and> (\<forall>a. RobustTrack.positions t = [a] \<longrightarrow> predicted_position t = a)
      \<and> (RobustTrack.positions t = [] \<longrightarrow> predicted_position t = (0, 0))"
    by (auto simp: predicted_position_def extrapolate_def nth2 Let_def
          split: bool.splits option.splits)
  have u: "(\<forall>ps a b. UnifiedTrack.positions u = ps @ [a, b]
         \<longrightarrow> unified_predicted_position u = extrapolate a b)
   \<and> (\<forall>a. UnifiedTrack.positions u = [a] \<longrightarrow> unified_predicted_position u = a)
   \<and> (UnifiedTrack.positions u = [] \<longrightarrow> unified_predicted_position u = (0, 0))"
    by (auto simp: unified_predicted_position_def extrapolate_def nth2 Let_def)
  from r1 r2 u show ?thesis by blast
qed


theorem unified_prediction_ignores_rest_counterexample:
  "UnifiedTrack.is_resting ex_unified_resting
   \<and> UnifiedTrack.rest_zone_center ex_unified_resting = Some (1, 0)
   \<and> unified_predicted_position ex_unified_resting = (2, 0)
   \<and> unified_predicted_position ex_unified_resting \<noteq> (1, 0)"
  by (simp add: ex_unified_resting_def ex_unified_track_def unified_update_def
        UnifiedTrack_init_def ex_detection_def unified_predicted_position_def)

theorem predicted_position_cases_witness:
  "predicted_position (enter_rest_mode ex_robust_track) = (1, 0)
   \<and> predicted_position ex_robust_track = (2, 0)
   \<and> predicted_position (update (RobustTrack_init 1) (ex_candidate 0 (3, 4)) 0) = (3, 4)
   \<and> predicted_position (RobustTrack_init 1) = (0, 0)
   \<and> unified_predicted_position ex_unified_resting = (2, 0)
   \<and> unified_predicted_position (unified_update (UnifiedTrack_init 1) (ex_detection 0 (3, 4))) = (3, 4)
   \<and> unified_predicted_position (UnifiedTrack_init 1) = (0, 0)"
proof -
  have p2: "RobustTrack.positions ex_robust_track = [] @ [(0, 0), (1, 0)]"
    by (simp add: ex_robust_track_def update_def RobustTrack_init_def ex_candidate_def
          dark_only_candidate_def)
  have nr: "\<not> RobustTrack.is_resting ex_robust_track"
    by (simp add: ex_robust_track_def update_def)
  have rest: "RobustTrack.is_resting (enter_rest_mode ex_robust_track)"
     "RobustTrack.rest_zone_center (enter_rest_mode ex_robust_track) = Some (1, 0)"
    by (simp_all add: enter_rest_mode_def Let_def p2)
  have p1: "RobustTrack.positions (update (RobustTrack_init 1) (ex_candidate 0 (3, 4)) 0) = [(3, 4)]"
     "\<not> RobustTrack.is_resting (update (RobustTrack_init 1) (ex_candidate 0 (3, 4)) 0)"
    by (simp_all add: update_def RobustTrack_init_def ex_candidate_def dark_only_candidate_def)
  have p0: "RobustTrack.positions (RobustTrack_init 1) = []"
     "\<not> RobustTrack.is_resting (RobustTrack_init 1)"
    by (simp_all add: RobustTrack_init_def)
  have u2: "UnifiedTrack.positions ex_unified_resting = [] @ [(0, 0), (1, 0)]"
    by (simp add: ex_unified_resting_def ex_unified_track_def unified_update_def
          UnifiedTrack_init_def ex_detection_def)
  have u1: "UnifiedTrack.positions (unified_update (UnifiedTrack_init 1) (ex_detection 0 (3, 4))) = [(3, 4)]"
    by (simp add: unified_update_def UnifiedTrack_init_def ex_detection_def)
  have u0: "UnifiedTrack.positions (UnifiedTrack_init 1) = []"
    by (simp add: UnifiedTrack_init_def)
  have e: "extrapolate (0, 0) (1, 0) = (2, 0)" by (simp add: extrapolate_def)
  from predicted_position_cases[of "enter_rest_mode ex_robust_track" "(1, 0)" ex_unified_resting] rest u2 e
  have a: "predicted_position (enter_rest_mode ex_robust_track) = (1, 0)"
     "unified_predicted_position ex_unified_resting = (2, 0)"
    by metis+
  from predicted_position_cases[of ex_robust_track _
       "unified_update (UnifiedTrack_init 1) (ex_detection 0 (3, 4))"] nr p2 u1 e
  have b: "predicted_position ex_robust_track = (2, 0)"
     "unified_predicted_position (unified_update (UnifiedTrack_init 1) (ex_detection 0 (3, 4))) = (3, 4)"
    by metis+
  from predicted_position_cases[of "update (RobustTrack_init 1) (ex_candidate 0 (3, 4)) 0" _
       "UnifiedTrack_init 1"] p1 u0
  have c: "predicted_position (update (RobustTrack_init 1) (ex_candidate 0 (3, 4)) 0) = (3, 4)"
     "unified_predicted_position (UnifiedTrack_init 1) = (0, 0)"
    by metis+
  from predicted_position_cases[of "RobustTrack_init 1"] p0
  have d: "predicted_position (RobustTrack_init 1) = (0, 0)"
    by metis
  from a b c d show ?thesis by simp
qed

section \<open>Track validation\<close>

lemma foldl_add_sum:
  "foldl (\<lambda>total i. total + f i) (a :: real) [m..<n] = a + sum f {m..<n}"
proof (induction n)
  case 0
  then show ?case by simp
next
  case (Suc n)
  show ?case
  proof (cases "m \<le> n")
    case True
    then have "[m..<Suc n] = [m..<n] @ [n]" by simp
    with Suc True show ?thesis by (simp add: sum.atLeastLessThan_Suc)
  next
    case False
    then show ?thesis by simp
  qed
qed

lemma displacement_path_length:
  "displacement t = path_length (RobustTrack.positions t)"
proof (cases "length (RobustTrack.positions t) < 2")
  case True
  then have "{1..<length (RobustTrack.positions t)} = {}" by auto
  with True show ?thesis by (simp add: displacement_def path_length_def)
next
  case False
  let ?g = "\<lambda>i. sqrt ((fst (RobustTrack.positions t ! i) - fst (RobustTrack.positions t ! (i - 1)))\<^sup>2
               + (snd (RobustTrack.positions t ! i) - snd (RobustTrack.positions t ! (i - 1)))\<^sup>2)"
  have "foldl (\<lambda>total i. total + ?g i) 0 [1..<length (RobustTrack.positions t)]
          = 0 + sum ?g {1..<length (RobustTrack.positions t)}"
    by (rule foldl_add_sum)
  with False show ?thesis
    by (simp add: displacement_def path_length_def Let_def euclidean_def)
qed

lemma avg_speed_mean_step_speed:
  "avg_speed t = mean_step_speed (RobustTrack.positions t)"
  by (simp add: avg_speed_def mean_step_speed_def displacement_path_length)

lemma sum_list_zip_steps:
  assumes "2 \<le> length ps"
  shows "sum_list (map f (zip (butlast ps) (tl ps))) = (\<Sum>i = 1..<length ps. f (ps ! (i - 1), ps ! i))"
proof -
  define k where "k = length ps - 1"
  have lk: "length ps = Suc k" using assms by (simp add: k_def)
  have "sum_list (map f (zip (butlast ps) (tl ps)))
          = (\<Sum>i = 0..<k. f (zip (butlast ps) (tl ps) ! i))"
    by (simp add: sum_list_sum_nth k_def)
  also have "\<dots> = (\<Sum>i = 0..<k. f (ps ! (Suc i - 1), ps ! Suc i))"
    by (rule sum.cong) (simp_all add: nth_butlast nth_tl lk)
  also have "\<dots> = (\<Sum>i = Suc 0..<Suc k. f (ps ! (i - 1), ps ! i))"
    by (rule sum.shift_bounds_Suc_ivl[symmetric])
  finally show ?thesis by (simp add: lk)
qed

lemma unified_avg_speed_mean_step_speed:
  "unified_avg_speed u = mean_step_speed (UnifiedTrack.positions u)"
proof (cases "length (UnifiedTrack.positions u) < 2")
  case True
  then show ?thesis by (simp add: unified_avg_speed_def mean_step_speed_def)
next
  case False
  then have two: "2 \<le> length (UnifiedTrack.positions u)" by simp
  have "sum_list (map (\<lambda>(p1, p2). sqrt ((fst p2 - fst p1)\<^sup>2 + (snd p2 - snd p1)\<^sup>2))
                     (zip (butlast (UnifiedTrack.positions u)) (tl (UnifiedTrack.positions u))))
        = path_length (UnifiedTrack.positions u)"
    unfolding sum_list_zip_steps[OF two] path_length_def
    by (simp add: euclidean_def)
  with False show ?thesis by (simp add: unified_avg_speed_def mean_step_speed_def)
qed

lemma unified_displacement_net:
  "unified_displacement u = net_displacement (UnifiedTrack.positions u)"
  by (simp add: unified_displacement_def net_displacement_def euclidean_def)

lemma validate_track_conditions:
  assumes "length (RobustTrack.frames t) = length (RobustTrack.positions t)"
  shows "validate_track t p \<longleftrightarrow>
           RobustTrackingParams.min_track_length p \<le> int (length (RobustTrack.positions t))
         \<and> RobustTrackingParams.min_displacement p \<le> path_length (RobustTrack.positions t)
         \<and> RobustTrackingParams.min_speed p \<le> mean_step_speed (RobustTrack.positions t)
         \<and> mean_step_speed (RobustTrack.positions t) \<le> RobustTrackingParams.max_speed p"
  using assms
  by (auto simp: validate_track_def track_length_def displacement_path_length
        avg_speed_mean_step_speed)

lemma validate_track_ignores_flag:
  "validate_track (t\<lparr>is_valid := b\<rparr>) p = validate_track t p"
  by (simp add: validate_track_def track_length_def displacement_def avg_speed_def)

lemma active_tracks_parallel_histories:
  assumes "process_frames video 0 mp p ([], 1) = Inr (active, n)"
  shows "\<forall>t \<in> set active. length (RobustTrack.frames t) = length (RobustTrack.positions t)"
proof (rule process_frames_preserves
    [where P = "\<lambda>t. length (RobustTrack.frames t) = length (RobustTrack.positions t)", OF _ _ _ _ assms])
  show "\<And>t c f. length (RobustTrack.frames t) = length (RobustTrack.positions t)
          \<Longrightarrow> length (RobustTrack.frames (update t c f)) = length (RobustTrack.positions (update t c f))"
    by (simp add: update_def)
  show "\<And>t t'. length (RobustTrack.frames t) = length (RobustTrack.positions t)
          \<Longrightarrow> age_track p t = Some t'
          \<Longrightarrow> length (RobustTrack.frames t') = length (RobustTrack.positions t')"
    by (auto simp: age_track_def enter_rest_mode_def expand_rest_zone_def Let_def split: if_splits)
  show "\<And>n. length (RobustTrack.frames (RobustTrack_init n)) = length (RobustTrack.positions (RobustTrack_init n))"
    by (simp add: RobustTrack_init_def)
  show "\<forall>t \<in> set []. length (RobustTrack.frames t) = length (RobustTrack.positions t)"
    by simp
qed

lemma process_video_robust_flags:
  assumes "process_video_robust video mp p = Inr out"
  shows "\<exists>active n. process_frames video 0 mp p ([], 1) = Inr (active, n)
           \<and> out = map (\<lambda>t. t\<lparr>is_valid := validate_track t p\<rparr>) active"
proof (cases "process_frames video 0 mp p ([], 1)")
  case (Inl e)
  with assms show ?thesis by (simp add: process_video_robust_def)
next
  case (Inr st)
  obtain active n where "st = (active, n)" by (cases st) auto
  with Inr assms show ?thesis by (simp add: process_video_robust_def)
qed

text \<open>
  Claim C2 (amended). Robust tracker: at finalization a track (whose frame and position
  histories have the same length, as they do for every track of a run) is marked valid
  if and only if its length is at least \<open>min_track_length\<close>, the chained distance over
  its consecutive positions is at least \<open>min_displacement\<close>, and its mean distance per
  step (that chained distance divided by length - 1, and 0 for fewer than two positions)
  lies within \<open>[min_speed, max_speed]\<close>; every track of the final active list is in the
  output, flagged and otherwise unchanged; a track of length 4 is invalid when
  \<open>min_track_length = 5\<close>. Unified tracker: \<open>finalize\<close> returns exactly the tracks of its
  two lists whose length is at least \<open>min_track_length\<close>, whose distance from first to
  last position is at least \<open>min_displacement\<close> and whose mean distance per step lies
  within \<open>[min_speed, max_speed]\<close>; the other tracks are not in its result.
\<close>

theorem validation_conditions:
  "(length (RobustTrack.frames t) = length (RobustTrack.positions t) \<longrightarrow>
      (validate_track t p \<longleftrightarrow>
          RobustTrackingParams.min_track_length p \<le> int (length (RobustTrack.positions t))
        \<and> RobustTrackingParams.min_displacement p \<le> path_length (RobustTrack.positions t)
        \<and> RobustTrackingParams.min_speed p \<le> mean_step_speed (RobustTrack.positions t)
        \<and> mean_step_speed (RobustTrack.positions t) \<le> RobustTrackingParams.max_speed p))
   \<and> (track_length t = 4 \<and> RobustTrackingParams.min_track_length p = 5 \<longrightarrow> \<not> validate_track t p)
   \<and> (process_video_robust video mp p = Inr out \<longrightarrow>
        (\<exists>active n. process_frames video 0 mp p ([], 1) = Inr (active, n)
            \<and> out = map (\<lambda>t. t\<lparr>is_valid := validate_track t p\<rparr>) active)
      \<and> (\<forall>t \<in> set out. length (RobustTrack.frames t) = length (RobustTrack.positions t)
            \<and> (is_valid t \<longleftrightarrow> validate_track t p)))
   \<and> (u \<in> set (finalize active_tracks completed_tracks q) \<longleftrightarrow>
          u \<in> set active_tracks \<union> set completed_tracks
        \<and> min_track_length q \<le> int (length (UnifiedTrack.positions u))
        \<and> min_displacement q \<le> net_displacement (UnifiedTrack.positions u)
        \<and> min_speed q \<le> mean_step_speed (UnifiedTrack.positions u)
        \<and> mean_step_speed (UnifiedTrack.positions u) \<le> max_speed q)"
proof -
  have a: "length (RobustTrack.frames t) = length (RobustTrack.positions t) \<longrightarrow>
      (validate_track t p \<longleftrightarrow>
          RobustTrackingParams.min_track_length p \<le> int (length (RobustTrack.positions t))
        \<and> RobustTrackingParams.min_displacement p \<le> path_length (RobustTrack.positions t)
        \<and> RobustTrackingParams.min_speed p \<le> mean_step_speed (RobustTrack.positions t)
        \<and> mean_step_speed (RobustTrack.positions t) \<le> RobustTrackingParams.max_speed p)"
    using validate_track_conditions by blast
  have b: "track_length t = 4 \<and> RobustTrackingParams.min_track_length p = 5 \<longrightarrow> \<not> validate_track t p"
    by (simp add: validate_track_def)
  have c: "process_video_robust video mp p = Inr out \<longrightarrow>
        (\<exists>active n. process_frames video 0 mp p ([], 1) = Inr (active, n)
            \<and> out = map (\<lambda>t. t\<lparr>is_valid := validate_track t p\<rparr>) active)
      \<and> (\<forall>t \<in> set out. length (RobustTrack.frames t) = length (RobustTrack.positions t)
            \<and> (is_valid t \<longleftrightarrow> validate_track t p))"
  proof
    assume run: "process_video_robust video mp p = Inr out"
    from process_video_robust_flags[OF run] obtain active n where
      pf: "process_frames video 0 mp p ([], 1) = Inr (active, n)" and
      out: "out = map (\<lambda>t. t\<lparr>is_valid := validate_track t p\<rparr>) active"
      by blast
    have "\<forall>t \<in> set out. length (RobustTrack.frames t) = length (RobustTrack.positions t)
            \<and> (is_valid t \<longleftrightarrow> validate_track t p)"
    proof
      fix t assume "t \<in> set out"
      with out obtain t0 where t0: "t0 \<in> set active" "t = t0\<lparr>is_valid := validate_track t0 p\<rparr>"
        by auto
      from active_tracks_parallel_histories[OF pf] t0(1)
      have "length (RobustTrack.frames t0) = length (RobustTrack.positions t0)" by simp
      with t0(2) show "length (RobustTrack.frames t) = length (RobustTrack.positions t)
            \<and> (is_valid t \<longleftrightarrow> validate_track t p)"
        by (simp add: validate_track_ignores_flag)
    qed
    with pf out show "(\<exists>active n. process_frames video 0 mp p ([], 1) = Inr (active, n)
            \<and> out = map (\<lambda>t. t\<lparr>is_valid := validate_track t p\<rparr>) active)
      \<and> (\<forall>t \<in> set out. length (RobustTrack.frames t) = length (RobustTrack.positions t)
            \<and> (is_valid t \<longleftrightarrow> validate_track t p))"
      by blast
  qed
  have d: "u \<in> set (finalize active_tracks completed_tracks q) \<longleftrightarrow>
          u \<in> set active_tracks \<union> set completed_tracks
        \<and> min_track_length q \<le> int (length (UnifiedTrack.positions u))
        \<and> min_displacement q \<le> net_displacement (UnifiedTrack.positions u)
        \<and> min_speed q \<le> mean_step_speed (UnifiedTrack.positions u)
        \<and> mean_step_speed (UnifiedTrack.positions u) \<le> max_speed q"
    by (auto simp: finalize_def unified_length_def unified_displacement_net
          unified_avg_speed_mean_step_speed)
  from a b c d show ?thesis by blast
qed

lemma ex_unified_loop_positions:
  "UnifiedTrack.positions ex_unified_loop = [(0, 0), (10, 0), (0, 0), (10, 0), (0, 0)]"
  by (simp add: ex_unified_loop_def unified_update_def UnifiedTrack_init_def ex_detection_def)

lemma path_length_five:
  "path_length [a, b, c, d, e] = euclidean b a + euclidean c b + euclidean d c + euclidean e d"
proof -
  have "{1..<5::nat} = {1, 2, 3, 4}" by auto
  then show ?thesis by (simp add: path_length_def)
qed

theorem finalize_net_displacement_counterexample:
  "min_track_length UnifiedTrackingParams_default \<le> int (length (UnifiedTrack.positions ex_unified_loop))
   \<and> min_displacement UnifiedTrackingParams_default \<le> path_length (UnifiedTrack.positions ex_unified_loop)
   \<and> min_speed UnifiedTrackingParams_default \<le> mean_step_speed (UnifiedTrack.positions ex_unified_loop)
   \<and> mean_step_speed (UnifiedTrack.positions ex_unified_loop) \<le> max_speed UnifiedTrackingParams_default
   \<and> finalize [ex_unified_loop] [] UnifiedTrackingParams_default = []"
  by (simp add: ex_unified_loop_positions path_length_five mean_step_speed_def
        euclidean_same_y UnifiedTrackingParams_default_def finalize_def unified_length_def
        unified_displacement_def)

lemma ex_robust_walk_histories:
  "RobustTrack.positions ex_robust_walk = [(0, 0), (3, 0), (6, 0), (9, 0), (12, 0)]"
  "RobustTrack.frames ex_robust_walk = [0, 1, 2, 3, 4]"
  by (simp_all add: ex_robust_walk_def update_def RobustTrack_init_def ex_candidate_def
        dark_only_candidate_def)

lemma ex_video_one_run:
  "process_video_robust ex_video_one ex_merge_params RobustTrackingParams_default =
     Inr [update (RobustTrack_init 1) (ex_candidate 0 (0, 0)) 0]"
  by (simp add: process_video_robust_def ex_video_one_def merge_blobs_into_candidates_def
        match_candidates_to_tracks_def ex_candidate_def validate_track_def track_length_def
        update_def RobustTrack_init_def RobustTrackingParams_default_def)

theorem validation_conditions_witness:
  "validate_track ex_robust_walk RobustTrackingParams_default
   \<and> \<not> validate_track (update (RobustTrack_init 1) (ex_candidate 0 (0, 0)) 0) RobustTrackingParams_default
   \<and> ex_unified_loop \<notin> set (finalize [ex_unified_loop] [] UnifiedTrackingParams_default)"
proof -
  have len: "length (RobustTrack.frames ex_robust_walk) = length (RobustTrack.positions ex_robust_walk)"
    by (simp add: ex_robust_walk_histories)
  have conds:
    "RobustTrackingParams.min_track_length RobustTrackingParams_default
       \<le> int (length (RobustTrack.positions ex_robust_walk))"
    "RobustTrackingParams.min_displacement RobustTrackingParams_default
       \<le> path_length (RobustTrack.positions ex_robust_walk)"
    "RobustTrackingParams.min_speed RobustTrackingParams_default
       \<le> mean_step_speed (RobustTrack.positions ex_robust_walk)"
    "mean_step_speed (RobustTrack.positions ex_robust_walk)
       \<le> RobustTrackingParams.max_speed RobustTrackingParams_default"
    by (simp_all add: ex_robust_walk_histories path_length_five mean_step_speed_def
          euclidean_same_y RobustTrackingParams_default_def)
  note inst = validation_conditions[of ex_robust_walk RobustTrackingParams_default
      ex_video_one ex_merge_params "[update (RobustTrack_init 1) (ex_candidate 0 (0, 0)) 0]"
      ex_unified_loop "[ex_unified_loop]" "[]" UnifiedTrackingParams_default]
  from inst len conds have v: "validate_track ex_robust_walk RobustTrackingParams_default"
    by blast
  from inst ex_video_one_run
  have "is_valid (update (RobustTrack_init 1) (ex_candidate 0 (0, 0)) 0)
          \<longleftrightarrow> validate_track (update (RobustTrack_init 1) (ex_candidate 0 (0, 0)) 0) RobustTrackingParams_default"
    by simp
  then have nv: "\<not> validate_track (update (RobustTrack_init 1) (ex_candidate 0 (0, 0)) 0) RobustTrackingParams_default"
    by (simp add: update_def RobustTrack_init_def)
  have "\<not> min_displacement UnifiedTrackingParams_default \<le> net_displacement (UnifiedTrack.positions ex_unified_loop)"
    by (simp add: ex_unified_loop_positions net_displacement_def euclidean_same_y
          UnifiedTrackingParams_default_def)
  with inst have nf: "ex_unified_loop \<notin> set (finalize [ex_unified_loop] [] UnifiedTrackingParams_default)"
    by blast
  from v nv nf show ?thesis by simp
qed

section \<open>Rest-zone radius\<close>













text \<open>
  The robust tracker's \<open>enter_rest_mode\<close> sets the radius to the constant \<open>100\<close> and does
  not read \<open>initial_rest_radius\<close>: with \<open>initial_rest_radius = 50\<close> the first miss still
  gives the radius \<open>100\<close>.
\<close>

lemma robust_enter_rest_mode_constant_radius:
  "misses (RobustTrackingParams_default\<lparr>RobustTrackingParams.initial_rest_radius := 50\<rparr>) 1
       ex_robust_track
     = Some (ex_robust_track\<lparr>RobustTrack.frames_since_detection := 1,
               RobustTrack.is_resting := True, RobustTrack.rest_zone_center := Some (1, 0),
               RobustTrack.rest_zone_radius := 100\<rparr>)"
  by (simp add: age_track_def enter_rest_mode_def
        ex_robust_track_def update_def RobustTrack_init_def ex_candidate_def
        dark_only_candidate_def RobustTrackingParams_default_def Let_def)

section \<open>Detection fusion\<close>

lemma appearance_output_code:
  "appearance_output fidx p M r jo =
     (case jo of
        None \<Rightarrow> rtdetr_only_detection fidx p r
      | Some j \<Rightarrow> fused_detection fidx p r (M ! j))"
  by (cases jo; cases "RTDETRDetection.bbox r")
     (simp_all add: appearance_output_def rtdetr_only_detection_def fused_detection_def
        Let_def min.commute)

lemma motion_only_output_code:
  "motion_only_output fidx p m = motion_only_detection fidx p m"
  by (simp add: motion_only_output_def motion_only_detection_def Let_def)

lemma best_match_index:
  assumes "fst (best_match r p used ims (bi, bs)) = Some j"
  shows "bi = Some j \<or> (j \<in> fst ` set ims \<and> j \<notin> used)"
  using assms
proof (induction ims arbitrary: bi bs)
  case Nil
  then show ?case by simp
next
  case (Cons im ims)
  obtain i m where im: "im = (i, m)" by (cases im) auto
  from Cons.prems im consider
      "fst (best_match r p used ims (bi, bs)) = Some j"
    | s where "i \<notin> used" "fst (best_match r p used ims (Some i, s)) = Some j"
    by (auto simp: Let_def split: if_splits)
  then show ?case
  proof cases
    case 1
    from Cons.IH[OF 1] show ?thesis by auto
  next
    case 2
    from Cons.IH[OF 2(2)] 2(1) im show ?thesis by auto
  qed
qed

lemma fst_set_enumerate: "fst ` set (List.enumerate 0 xs) = {0..<length xs}"
proof -
  have "fst ` set (List.enumerate 0 xs) = set (map fst (List.enumerate 0 xs))"
    by (simp only: set_map)
  also have "\<dots> = {0..<length xs}" by (simp only: map_fst_enumerate) simp
  finally show ?thesis .
qed

lemma best_match_fresh:
  assumes "fst (best_match r p used (List.enumerate 0 M) (None, 0)) = Some j"
  shows "j < length M \<and> j \<notin> used"
  using best_match_index[OF assms] by (simp add: fst_set_enumerate)

lemma fuse_loop_shape:
  assumes "fuse_loop R M fidx p (unified, used) = (unified', used')"
  shows "\<exists>js. length js = length R
           \<and> unified' = unified @ map2 (appearance_output fidx p M) R js
           \<and> used' = used \<union> {j. Some j \<in> set js}
           \<and> (\<forall>j. Some j \<in> set js \<longrightarrow> j < length M \<and> j \<notin> used)
           \<and> distinct (filter (\<lambda>x. x \<noteq> None) js)"
  using assms
proof (induction R arbitrary: unified used)
  case Nil
  then show ?case by simp
next
  case (Cons r R)
  let ?b = "fst (best_match r p used (List.enumerate 0 M) (None, 0))"
  show ?case
  proof (cases ?b)
    case None
    with Cons.prems have
      "fuse_loop R M fidx p (unified @ [rtdetr_only_detection fidx p r], used) = (unified', used')"
      by simp
    from Cons.IH[OF this] obtain js where js: "length js = length R"
      "unified' = (unified @ [rtdetr_only_detection fidx p r]) @ map2 (appearance_output fidx p M) R js"
      "used' = used \<union> {j. Some j \<in> set js}"
      "\<forall>j. Some j \<in> set js \<longrightarrow> j < length M \<and> j \<notin> used"
      "distinct (filter (\<lambda>x. x \<noteq> None) js)"
      by blast
    have "length (None # js) = length (r # R)
           \<and> unified' = unified @ map2 (appearance_output fidx p M) (r # R) (None # js)
           \<and> used' = used \<union> {j. Some j \<in> set (None # js)}
           \<and> (\<forall>j. Some j \<in> set (None # js) \<longrightarrow> j < length M \<and> j \<notin> used)
           \<and> distinct (filter (\<lambda>x. x \<noteq> None) (None # js))"
      using js by (simp add: appearance_output_code)
    then show ?thesis by blast
  next
    case (Some j0)
    from best_match_fresh[OF Some] have j0: "j0 < length M" "j0 \<notin> used" by simp_all
    from Some Cons.prems have
      "fuse_loop R M fidx p (unified @ [fused_detection fidx p r (M ! j0)], insert j0 used)
         = (unified', used')"
      by simp
    from Cons.IH[OF this] obtain js where js: "length js = length R"
      "unified' = (unified @ [fused_detection fidx p r (M ! j0)]) @ map2 (appearance_output fidx p M) R js"
      "used' = insert j0 used \<union> {j. Some j \<in> set js}"
      "\<forall>j. Some j \<in> set js \<longrightarrow> j < length M \<and> j \<notin> insert j0 used"
      "distinct (filter (\<lambda>x. x \<noteq> None) js)"
      by blast
    have "Some j0 \<notin> set js" using js(4) by auto
    then have "length (Some j0 # js) = length (r # R)
           \<and> unified' = unified @ map2 (appearance_output fidx p M) (r # R) (Some j0 # js)
           \<and> used' = used \<union> {j. Some j \<in> set (Some j0 # js)}
           \<and> (\<forall>j. Some j \<in> set (Some j0 # js) \<longrightarrow> j < length M \<and> j \<notin> used)
           \<and> distinct (filter (\<lambda>x. x \<noteq> None) (Some j0 # js))"
      using js j0 by (auto simp: appearance_output_code)
    then show ?thesis by blast
  qed
qed

lemma count_unused:
  assumes "distinct (filter (\<lambda>x. x \<noteq> None) js)"
      and "\<forall>j. Some j \<in> set js \<longrightarrow> j < n"
  shows "length (filter (\<lambda>i. Some i \<notin> set js) [0..<n]) = n - length (filter (\<lambda>x. x \<noteq> None) js)"
proof -
  let ?U = "{j. Some j \<in> set js}"
  have fin: "finite ?U" using assms(2) by (auto intro: finite_subset[of _ "{0..<n}"])
  have sub: "?U \<subseteq> {0..<n}" using assms(2) by auto
  have eqS: "set (filter (\<lambda>x. x \<noteq> None) js) = Some ` ?U"
    by (auto simp: image_iff)
  have "length (filter (\<lambda>x. x \<noteq> None) js) = card (set (filter (\<lambda>x. x \<noteq> None) js))"
    using assms(1) by (rule distinct_card[symmetric])
  also have "\<dots> = card (Some ` ?U)" by (simp only: eqS)
  also have "\<dots> = card ?U" by (simp add: card_image)
  finally have cU: "length (filter (\<lambda>x. x \<noteq> None) js) = card ?U" .
  have "distinct (filter (\<lambda>i. Some i \<notin> set js) [0..<n])" by simp
  then have "length (filter (\<lambda>i. Some i \<notin> set js) [0..<n]) = card (set (filter (\<lambda>i. Some i \<notin> set js) [0..<n]))"
    by (rule distinct_card[symmetric])
  also have "set (filter (\<lambda>i. Some i \<notin> set js) [0..<n]) = {0..<n} - ?U" by auto
  also have "card ({0..<n} - ?U) = n - card ?U"
    using sub by (simp add: card_Diff_subset fin)
  finally show ?thesis using cU by simp
qed

lemma best_match_step:
  "best_match r p used ((i, m) # rest) (bi, bs) =
     (if i \<notin> used \<and> eligible p r m \<and> pair_score p r m > bs
      then best_match r p used rest (Some i, pair_score p r m)
      else best_match r p used rest (bi, bs))"
  by (simp add: eligible_def pair_score_def euclidean_def Let_def)

lemma best_match_maximal:
  assumes "best_match r p used ims (bi, bs) = (bi', bs')"
  shows "bs \<le> bs'
       \<and> (\<forall>(i, m) \<in> set ims. i \<notin> used \<and> eligible p r m \<longrightarrow> pair_score p r m \<le> bs')
       \<and> ((bi' = bi \<and> bs' = bs)
          \<or> (\<exists>(i, m) \<in> set ims. bi' = Some i \<and> i \<notin> used \<and> eligible p r m
                \<and> pair_score p r m = bs' \<and> bs < bs'))"
  using assms
proof (induction ims arbitrary: bi bs)
  case Nil
  then show ?case by simp
next
  case (Cons im ims)
  obtain i m where im: "im = (i, m)" by (cases im) auto
  show ?case
  proof (cases "i \<notin> used \<and> eligible p r m \<and> pair_score p r m > bs")
    case True
    with Cons.prems im have "best_match r p used ims (Some i, pair_score p r m) = (bi', bs')"
      by (simp add: best_match_step del: best_match.simps)
    from Cons.IH[OF this] have IH: "pair_score p r m \<le> bs'"
      "\<forall>(i, m) \<in> set ims. i \<notin> used \<and> eligible p r m \<longrightarrow> pair_score p r m \<le> bs'"
      "(bi' = Some i \<and> bs' = pair_score p r m)
          \<or> (\<exists>(i', m') \<in> set ims. bi' = Some i' \<and> i' \<notin> used \<and> eligible p r m'
                \<and> pair_score p r m' = bs' \<and> pair_score p r m < bs')"
      by auto
    from IH(1) True have 1: "bs \<le> bs'" by simp
    from IH(1,2) im have 2: "\<forall>(i, m) \<in> set (im # ims). i \<notin> used \<and> eligible p r m \<longrightarrow> pair_score p r m \<le> bs'"
      by auto
    from IH(3) True im have 3: "\<exists>(i, m) \<in> set (im # ims). bi' = Some i \<and> i \<notin> used \<and> eligible p r m
                \<and> pair_score p r m = bs' \<and> bs < bs'"
      by auto
    from 1 2 3 show ?thesis by blast
  next
    case False
    with Cons.prems im have "best_match r p used ims (bi, bs) = (bi', bs')"
      by (simp add: best_match_step del: best_match.simps)
    from Cons.IH[OF this] have IH: "bs \<le> bs'"
      "\<forall>(i, m) \<in> set ims. i \<notin> used \<and> eligible p r m \<longrightarrow> pair_score p r m \<le> bs'"
      "(bi' = bi \<and> bs' = bs)
          \<or> (\<exists>(i, m) \<in> set ims. bi' = Some i \<and> i \<notin> used \<and> eligible p r m
                \<and> pair_score p r m = bs' \<and> bs < bs')"
      by auto
    from IH(1) False have "i \<notin> used \<and> eligible p r m \<longrightarrow> pair_score p r m \<le> bs'" by auto
    with IH(2) im have 2: "\<forall>(i, m) \<in> set (im # ims). i \<notin> used \<and> eligible p r m \<longrightarrow> pair_score p r m \<le> bs'"
      by auto
    from IH(3) have 3: "(bi' = bi \<and> bs' = bs)
          \<or> (\<exists>(i, m) \<in> set (im # ims). bi' = Some i \<and> i \<notin> used \<and> eligible p r m
                \<and> pair_score p r m = bs' \<and> bs < bs')"
      by auto
    from IH(1) 2 3 show ?thesis by blast
  qed
qed

text \<open>
  What the inner loop of the fuser selects: an unconsumed, eligible candidate whose
  score is positive and maximal among the unconsumed eligible candidates; it selects
  nothing exactly when no unconsumed eligible candidate has a positive score.
\<close>

lemma best_match_selection:
  "case fst (best_match r p used (List.enumerate 0 M) (None, 0)) of
     Some j \<Rightarrow> j < length M \<and> j \<notin> used \<and> eligible p r (M ! j) \<and> 0 < pair_score p r (M ! j)
               \<and> (\<forall>i < length M. i \<notin> used \<and> eligible p r (M ! i)
                     \<longrightarrow> pair_score p r (M ! i) \<le> pair_score p r (M ! j))
   | None \<Rightarrow> (\<forall>i < length M. i \<notin> used \<and> eligible p r (M ! i) \<longrightarrow> pair_score p r (M ! i) \<le> 0)"
proof -
  obtain bi' bs' where b: "best_match r p used (List.enumerate 0 M) (None, 0) = (bi', bs')"
    by (cases "best_match r p used (List.enumerate 0 M) (None, 0)") auto
  from best_match_maximal[OF b] have
    all: "\<forall>(i, m) \<in> set (List.enumerate 0 M). i \<notin> used \<and> eligible p r m \<longrightarrow> pair_score p r m \<le> bs'"
    and sel: "(bi' = None \<and> bs' = 0)
          \<or> (\<exists>(i, m) \<in> set (List.enumerate 0 M). bi' = Some i \<and> i \<notin> used \<and> eligible p r m
                \<and> pair_score p r m = bs' \<and> 0 < bs')"
    by auto
  have mem: "(i, M ! i) \<in> set (List.enumerate 0 M)" if "i < length M" for i
    using that by (simp add: in_set_enumerate_eq)
  have all': "\<forall>i < length M. i \<notin> used \<and> eligible p r (M ! i) \<longrightarrow> pair_score p r (M ! i) \<le> bs'"
    using all mem by fastforce
  show ?thesis
  proof (cases bi')
    case None
    with sel have "bs' = 0" by auto
    with all' None b show ?thesis by simp
  next
    case (Some j)
    with sel obtain m where "(j, m) \<in> set (List.enumerate 0 M)" "j \<notin> used" "eligible p r m"
      "pair_score p r m = bs'" "0 < bs'"
      by auto
    moreover from this(1) have "j < length M" "m = M ! j" by (simp_all add: in_set_enumerate_eq)
    ultimately show ?thesis using all' Some b by simp
  qed
qed

lemma appearance_output_source:
  "source (appearance_output fidx p M r jo) = (if jo = None then RTDETR_ONLY else BOTH_FUSED)"
  by (cases jo)
     (simp_all add: appearance_output_def)

lemma fused_count:
  assumes "length js = length R"
  shows "length (filter (\<lambda>u. source u = BOTH_FUSED) (map2 (appearance_output fidx p M) R js))
           = length (filter (\<lambda>x. x \<noteq> None) js)"
  using assms[symmetric]
  by (induction R js rule: list_induct2) (simp_all add: appearance_output_source)

lemma motion_only_not_fused:
  "filter (\<lambda>u. source u = BOTH_FUSED) (map (\<lambda>i. motion_only_output fidx p (M ! i)) is) = []"
  by (induction "is") (simp_all add: motion_only_output_def)

text \<open>
  Claim C6. The fuser emits one record for every appearance detection, in input order:
  the fused record of that detection and a motion candidate, or its appearance-only
  record at the confidence \<open>confidence * rtdetr_weight\<close>; both carry the detection's box,
  centroid, confidence and class. These are followed by one \<open>motion_only\<close> record for
  every motion candidate that no fusion consumed, in input order, carrying the
  candidate's box, centroid, area and type at the confidence
  \<open>motion_only_base_conf * motion_conf\<close> with \<open>motion_conf = 0.7\<close>. No candidate is fused
  twice, and the number of records is the number of appearance detections plus the
  number of motion candidates minus the number of fused records.
\<close>

theorem fuse_detections_keeps_both_signals:
  "(\<exists>js. length js = length R
       \<and> (\<forall>j. Some j \<in> set js \<longrightarrow> j < length M)
       \<and> distinct (filter (\<lambda>x. x \<noteq> None) js)
       \<and> fuse_detections R M fidx p =
           map2 (appearance_output fidx p M) R js
           @ map (\<lambda>i. motion_only_output fidx p (M ! i))
               (filter (\<lambda>i. Some i \<notin> set js) [0..<length M]))
   \<and> length (fuse_detections R M fidx p)
       + length (filter (\<lambda>u. source u = BOTH_FUSED) (fuse_detections R M fidx p))
       = length R + length M
   \<and> (\<forall>r. source (appearance_output fidx p M r None) = RTDETR_ONLY
          \<and> unified_conf (appearance_output fidx p M r None) = confidence r * rtdetr_weight p
          \<and> rtdetr_conf (appearance_output fidx p M r None) = confidence r
          \<and> UnifiedDetection.bbox (appearance_output fidx p M r None) = RTDETRDetection.bbox r
          \<and> UnifiedDetection.centroid (appearance_output fidx p M r None)
              = RTDETRDetection.centroid r
          \<and> rtdetr_class (appearance_output fidx p M r None) = Some (class_name r))
   \<and> (\<forall>r j. source (appearance_output fidx p M r (Some j)) = BOTH_FUSED
          \<and> unified_conf (appearance_output fidx p M r (Some j))
              = min 1 ((confidence r * rtdetr_weight p + 0.7 * motion_weight p)
                         * both_detected_boost p)
          \<and> rtdetr_conf (appearance_output fidx p M r (Some j)) = confidence r
          \<and> motion_conf (appearance_output fidx p M r (Some j)) = 0.7
          \<and> UnifiedDetection.bbox (appearance_output fidx p M r (Some j)) = RTDETRDetection.bbox r
          \<and> UnifiedDetection.centroid (appearance_output fidx p M r (Some j))
              = RTDETRDetection.centroid r
          \<and> rtdetr_class (appearance_output fidx p M r (Some j)) = Some (class_name r)
          \<and> motion_type (appearance_output fidx p M r (Some j)) = Some (candidate_type (M ! j)))
   \<and> (\<forall>m. source (motion_only_output fidx p m) = MOTION_ONLY
          \<and> motion_conf (motion_only_output fidx p m) = 0.7
          \<and> unified_conf (motion_only_output fidx p m)
              = motion_only_base_conf p * motion_conf (motion_only_output fidx p m)
          \<and> UnifiedDetection.bbox (motion_only_output fidx p m) = OrganismCandidate.bbox m
          \<and> UnifiedDetection.centroid (motion_only_output fidx p m) = OrganismCandidate.centroid m
          \<and> UnifiedDetection.area (motion_only_output fidx p m) = total_area m
          \<and> motion_type (motion_only_output fidx p m) = Some (candidate_type m))"
proof -
  obtain unified used where fl: "fuse_loop R M fidx p ([], {}) = (unified, used)"
    by (cases "fuse_loop R M fidx p ([], {})") auto
  from fuse_loop_shape[OF fl] obtain js where js: "length js = length R"
    "unified = [] @ map2 (appearance_output fidx p M) R js"
    "used = {} \<union> {j. Some j \<in> set js}"
    "\<forall>j. Some j \<in> set js \<longrightarrow> j < length M \<and> j \<notin> {}"
    "distinct (filter (\<lambda>x. x \<noteq> None) js)"
    by blast
  have bound: "\<forall>j. Some j \<in> set js \<longrightarrow> j < length M" using js(4) by simp
  have out: "fuse_detections R M fidx p =
           map2 (appearance_output fidx p M) R js
           @ map (\<lambda>i. motion_only_output fidx p (M ! i))
               (filter (\<lambda>i. Some i \<notin> set js) [0..<length M])"
    using fl js(2,3) by (simp add: fuse_detections_def motion_only_output_code)
  have le: "length (filter (\<lambda>x. x \<noteq> None) js) \<le> length M"
  proof -
    have sub: "set (filter (\<lambda>x. x \<noteq> None) js) \<subseteq> Some ` {0..<length M}"
      using bound by (auto simp: image_iff)
    have "length (filter (\<lambda>x. x \<noteq> None) js) = card (set (filter (\<lambda>x. x \<noteq> None) js))"
      using js(5) by (rule distinct_card[symmetric])
    also have "\<dots> \<le> card (Some ` {0..<length M})"
      using sub by (intro card_mono) simp_all
    also have "\<dots> = length M" by (simp add: card_image)
    finally show ?thesis .
  qed
  have fc: "length (filter (\<lambda>u. source u = BOTH_FUSED) (fuse_detections R M fidx p))
              = length (filter (\<lambda>x. x \<noteq> None) js)"
  proof -
    have "filter (\<lambda>u. source u = BOTH_FUSED) (fuse_detections R M fidx p)
            = filter (\<lambda>u. source u = BOTH_FUSED) (map2 (appearance_output fidx p M) R js)"
      unfolding out filter_append motion_only_not_fused by (simp only: append_Nil2)
    then show ?thesis by (simp only: fused_count[OF js(1)])
  qed
  have "length (fuse_detections R M fidx p) + length (filter (\<lambda>x. x \<noteq> None) js)
           = length R + length M"
    unfolding out using count_unused[OF js(5) bound] le js(1) by simp
  with fc have len: "length (fuse_detections R M fidx p)
       + length (filter (\<lambda>u. source u = BOTH_FUSED) (fuse_detections R M fidx p))
       = length R + length M"
    by simp
  have rec1: "\<forall>r. source (appearance_output fidx p M r None) = RTDETR_ONLY
          \<and> unified_conf (appearance_output fidx p M r None) = confidence r * rtdetr_weight p
          \<and> rtdetr_conf (appearance_output fidx p M r None) = confidence r
          \<and> UnifiedDetection.bbox (appearance_output fidx p M r None) = RTDETRDetection.bbox r
          \<and> UnifiedDetection.centroid (appearance_output fidx p M r None)
              = RTDETRDetection.centroid r
          \<and> rtdetr_class (appearance_output fidx p M r None) = Some (class_name r)"
    by (simp add: appearance_output_def)
  have rec2: "\<forall>r j. source (appearance_output fidx p M r (Some j)) = BOTH_FUSED
          \<and> unified_conf (appearance_output fidx p M r (Some j))
              = min 1 ((confidence r * rtdetr_weight p + 0.7 * motion_weight p)
                         * both_detected_boost p)
          \<and> rtdetr_conf (appearance_output fidx p M r (Some j)) = confidence r
          \<and> motion_conf (appearance_output fidx p M r (Some j)) = 0.7
          \<and> UnifiedDetection.bbox (appearance_output fidx p M r (Some j)) = RTDETRDetection.bbox r
          \<and> UnifiedDetection.centroid (appearance_output fidx p M r (Some j))
              = RTDETRDetection.centroid r
          \<and> rtdetr_class (appearance_output fidx p M r (Some j)) = Some (class_name r)
          \<and> motion_type (appearance_output fidx p M r (Some j)) = Some (candidate_type (M ! j))"
    by (simp add: appearance_output_def)
  have rec3: "\<forall>m. source (motion_only_output fidx p m) = MOTION_ONLY
          \<and> motion_conf (motion_only_output fidx p m) = 0.7
          \<and> unified_conf (motion_only_output fidx p m)
              = motion_only_base_conf p * motion_conf (motion_only_output fidx p m)
          \<and> UnifiedDetection.bbox (motion_only_output fidx p m) = OrganismCandidate.bbox m
          \<and> UnifiedDetection.centroid (motion_only_output fidx p m) = OrganismCandidate.centroid m
          \<and> UnifiedDetection.area (motion_only_output fidx p m) = total_area m
          \<and> motion_type (motion_only_output fidx p m) = Some (candidate_type m)"
    by (simp add: motion_only_output_def)
  from js(1) bound js(5) out have ex: "\<exists>js. length js = length R
       \<and> (\<forall>j. Some j \<in> set js \<longrightarrow> j < length M)
       \<and> distinct (filter (\<lambda>x. x \<noteq> None) js)
       \<and> fuse_detections R M fidx p =
           map2 (appearance_output fidx p M) R js
           @ map (\<lambda>i. motion_only_output fidx p (M ! i))
               (filter (\<lambda>i. Some i \<notin> set js) [0..<length M])"
    by blast
  show ?thesis
    apply (intro conjI)
        apply (rule ex)
       apply (rule len)
      apply (rule rec1)
     apply (rule rec2)
    apply (rule rec3)
    done
qed

lemma ex_fuse_scores:
  "eligible FusionParams_default ex_rtdetr ex_motion_same"
  "pair_score FusionParams_default ex_rtdetr ex_motion_same = 1"
  "\<not> eligible FusionParams_default ex_rtdetr ex_motion_elsewhere"
  "\<not> eligible FusionParams_default ex_rtdetr_lone ex_motion_elsewhere"
  by (simp_all add: eligible_def pair_score_def match_score_def calculate_iou_def
        euclidean_same_y ex_rtdetr_def ex_rtdetr_lone_def ex_motion_same_def
        ex_motion_elsewhere_def dark_only_candidate_def bright_only_candidate_def
        FusionParams_default_def Let_def)

lemma ex_fuse_three:
  "fuse_detections [ex_rtdetr, ex_rtdetr_lone] [ex_motion_same, ex_motion_elsewhere] 0
       FusionParams_default
     = [\<lparr>UnifiedDetection.frame_idx = 0, UnifiedDetection.bbox = (0, 0, 10, 10),
          UnifiedDetection.centroid = (5, 5), UnifiedDetection.area = 100,
          rtdetr_conf = 0.8, motion_conf = 0.7, unified_conf = 0.924,
          source = BOTH_FUSED, rtdetr_class = Some ''fish'',
          motion_type = Some ''dark_only''\<rparr>,
        \<lparr>UnifiedDetection.frame_idx = 0, UnifiedDetection.bbox = (200, 0, 10, 10),
          UnifiedDetection.centroid = (205, 5), UnifiedDetection.area = 100,
          rtdetr_conf = 0.6, motion_conf = 0, unified_conf = 0.42,
          source = RTDETR_ONLY, rtdetr_class = Some ''crab'', motion_type = None\<rparr>,
        \<lparr>UnifiedDetection.frame_idx = 0, UnifiedDetection.bbox = (500, 0, 10, 10),
          UnifiedDetection.centroid = (505, 5), UnifiedDetection.area = 90,
          rtdetr_conf = 0, motion_conf = 0.7, unified_conf = 0.35,
          source = MOTION_ONLY, rtdetr_class = None,
          motion_type = Some ''bright_only''\<rparr>]"
proof -
  have u2: "[0..<2] = [0, Suc 0]" by (simp add: upt_rec)
  have e: "List.enumerate 0 [ex_motion_same, ex_motion_elsewhere]
             = [(0, ex_motion_same), (Suc 0, ex_motion_elsewhere)]"
    by simp
  have b1: "best_match ex_rtdetr FusionParams_default {}
              [(0, ex_motion_same), (Suc 0, ex_motion_elsewhere)] (None, 0) = (Some 0, 1)"
    by (simp add: best_match_step ex_fuse_scores del: best_match.simps)
       simp
  have b2: "best_match ex_rtdetr_lone FusionParams_default {0}
              [(0, ex_motion_same), (Suc 0, ex_motion_elsewhere)] (None, 0) = (None, 0)"
    by (simp add: best_match_step ex_fuse_scores del: best_match.simps)
       simp
  show ?thesis
    by (simp add: fuse_detections_def e b1 b2 u2 del: best_match.simps)
       (simp add: fused_detection_def rtdetr_only_detection_def motion_only_detection_def
          ex_rtdetr_def ex_rtdetr_lone_def ex_motion_same_def ex_motion_elsewhere_def
          dark_only_candidate_def bright_only_candidate_def FusionParams_default_def Let_def)
qed

theorem fuse_detections_keeps_both_signals_witness:
  "fuse_detections [ex_rtdetr, ex_rtdetr_lone] [ex_motion_same, ex_motion_elsewhere] 0
       FusionParams_default
     = [\<lparr>UnifiedDetection.frame_idx = 0, UnifiedDetection.bbox = (0, 0, 10, 10),
          UnifiedDetection.centroid = (5, 5), UnifiedDetection.area = 100,
          rtdetr_conf = 0.8, motion_conf = 0.7, unified_conf = 0.924,
          source = BOTH_FUSED, rtdetr_class = Some ''fish'',
          motion_type = Some ''dark_only''\<rparr>,
        \<lparr>UnifiedDetection.frame_idx = 0, UnifiedDetection.bbox = (200, 0, 10, 10),
          UnifiedDetection.centroid = (205, 5), UnifiedDetection.area = 100,
          rtdetr_conf = 0.6, motion_conf = 0, unified_conf = 0.42,
          source = RTDETR_ONLY, rtdetr_class = Some ''crab'', motion_type = None\<rparr>,
        \<lparr>UnifiedDetection.frame_idx = 0, UnifiedDetection.bbox = (500, 0, 10, 10),
          UnifiedDetection.centroid = (505, 5), UnifiedDetection.area = 90,
          rtdetr_conf = 0, motion_conf = 0.7, unified_conf = 0.35,
          source = MOTION_ONLY, rtdetr_class = None,
          motion_type = Some ''bright_only''\<rparr>]
   \<and> length (fuse_detections [ex_rtdetr, ex_rtdetr_lone] [ex_motion_same, ex_motion_elsewhere] 0
               FusionParams_default)
       + length (filter (\<lambda>u. source u = BOTH_FUSED)
                   (fuse_detections [ex_rtdetr, ex_rtdetr_lone]
                      [ex_motion_same, ex_motion_elsewhere] 0 FusionParams_default))
       = length [ex_rtdetr, ex_rtdetr_lone] + length [ex_motion_same, ex_motion_elsewhere]"
proof -
  from fuse_detections_keeps_both_signals[of "[ex_rtdetr, ex_rtdetr_lone]"
      "[ex_motion_same, ex_motion_elsewhere]" 0 FusionParams_default]
  have "length (fuse_detections [ex_rtdetr, ex_rtdetr_lone] [ex_motion_same, ex_motion_elsewhere] 0
               FusionParams_default)
       + length (filter (\<lambda>u. source u = BOTH_FUSED)
                   (fuse_detections [ex_rtdetr, ex_rtdetr_lone]
                      [ex_motion_same, ex_motion_elsewhere] 0 FusionParams_default))
       = length [ex_rtdetr, ex_rtdetr_lone] + length [ex_motion_same, ex_motion_elsewhere]"
    by (rule conjunct1[OF conjunct2])
  with ex_fuse_three show ?thesis by (rule conjI)
qed

lemma sqrt_2500: "sqrt 2500 = 50"
  by (simp add: real_sqrt_unique)

text \<open>
  Claim C5, at the input where the code departs from it. The motion candidate is
  unconsumed and eligible (its centroid distance equals the distance threshold), and it
  is the only candidate, so it maximises the score; its score is \<open>0\<close>, the comparison
  \<open>score > best_match_score\<close> against the initial \<open>0\<close> fails, and the fuser emits an
  appearance-only and a motion-only record instead of a fused one.
\<close>

theorem fuse_threshold_distance_not_fused:
  "eligible FusionParams_default ex_rtdetr ex_motion_far
   \<and> euclidean (RTDETRDetection.centroid ex_rtdetr) (OrganismCandidate.centroid ex_motion_far)
       = distance_threshold FusionParams_default
   \<and> pair_score FusionParams_default ex_rtdetr ex_motion_far = 0
   \<and> fuse_detections [ex_rtdetr] [ex_motion_far] 0 FusionParams_default
       = [rtdetr_only_detection 0 FusionParams_default ex_rtdetr,
          motion_only_detection 0 FusionParams_default ex_motion_far]"
  by (simp add: eligible_def pair_score_def euclidean_def fuse_detections_def enumerate_eq_zip
        calculate_iou_def match_score_def ex_rtdetr_def ex_motion_far_def
        dark_only_candidate_def FusionParams_default_def Let_def sqrt_2500)

section \<open>Association step\<close>

lemma association_pairs_mem:
  assumes "(c, t, x) \<in> set (association_pairs candidates tracks params)"
  shows "c < length candidates \<and> t < length tracks"
  using assms by (auto simp: association_pairs_def Let_def split: if_splits)

lemma greedy_match_shape:
  assumes "greedy_match candidates fidx pairs (tracks, mc, mt) = (tracks', mc', mt')"
      and "\<forall>(c, t, x) \<in> set pairs. c < length candidates \<and> t < length tracks"
  shows "length tracks' = length tracks \<and> mt \<subseteq> mt'
       \<and> mt' - mt \<subseteq> {..<length tracks}
       \<and> (\<forall>i < length tracks. i \<notin> mt' - mt \<longrightarrow> tracks' ! i = tracks ! i)
       \<and> (\<forall>i \<in> mt' - mt. \<exists>c < length candidates.
              tracks' ! i = update (tracks ! i) (candidates ! c) fidx)"
  using assms
proof (induction pairs arbitrary: tracks mc mt)
  case Nil
  then show ?case by simp
next
  case (Cons pr pairs)
  obtain c t x where pr: "pr = (c, t, x)" by (cases pr) auto
  from Cons.prems(2) pr have ct: "c < length candidates" "t < length tracks" by auto
  from Cons.prems(2) have rest: "\<forall>(c, t, x) \<in> set pairs. c < length candidates \<and> t < length tracks"
    by auto
  show ?case
  proof (cases "c \<notin> mc \<and> t \<notin> mt")
    case False
    with Cons.prems(1) pr
    have "greedy_match candidates fidx pairs (tracks, mc, mt) = (tracks', mc', mt')" by auto
    from Cons.IH[OF this rest] show ?thesis .
  next
    case True
    let ?tr = "tracks[t := update (tracks ! t) (candidates ! c) fidx]"
    from True Cons.prems(1) pr
    have g: "greedy_match candidates fidx pairs (?tr, insert c mc, insert t mt) = (tracks', mc', mt')"
      by simp
    have rest': "\<forall>(c, t, x) \<in> set pairs. c < length candidates \<and> t < length ?tr"
      using rest by simp
    from Cons.IH[OF g rest'] have IH:
      "length tracks' = length ?tr" "insert t mt \<subseteq> mt'"
      "mt' - insert t mt \<subseteq> {..<length ?tr}"
      "\<forall>i < length ?tr. i \<notin> mt' - insert t mt \<longrightarrow> tracks' ! i = ?tr ! i"
      "\<forall>i \<in> mt' - insert t mt. \<exists>c < length candidates.
              tracks' ! i = update (?tr ! i) (candidates ! c) fidx"
      by simp_all
    have 1: "length tracks' = length tracks" using IH(1) by simp
    have 2: "mt \<subseteq> mt'" using IH(2) by auto
    have 3: "mt' - mt \<subseteq> {..<length tracks}" using IH(2,3) ct(2) by auto
    have 4: "\<forall>i < length tracks. i \<notin> mt' - mt \<longrightarrow> tracks' ! i = tracks ! i"
    proof (intro allI impI)
      fix i assume i: "i < length tracks" "i \<notin> mt' - mt"
      with IH(2) True have "i \<noteq> t" by auto
      moreover from i have "i \<notin> mt' - insert t mt" by auto
      ultimately show "tracks' ! i = tracks ! i" using IH(4) i(1) by simp
    qed
    have 5: "\<forall>i \<in> mt' - mt. \<exists>c < length candidates.
              tracks' ! i = update (tracks ! i) (candidates ! c) fidx"
    proof
      fix i assume i: "i \<in> mt' - mt"
      show "\<exists>c < length candidates. tracks' ! i = update (tracks ! i) (candidates ! c) fidx"
      proof (cases "i = t")
        case True
        then have "i \<notin> mt' - insert t mt" by simp
        with IH(4) ct(2) True have "tracks' ! i = ?tr ! i" by simp
        with True ct show ?thesis by auto
      next
        case False
        with i have "i \<in> mt' - insert t mt" by simp
        with IH(5) obtain c' where "c' < length candidates"
          "tracks' ! i = update (?tr ! i) (candidates ! c') fidx" by blast
        with False show ?thesis by auto
      qed
    qed
    from 1 2 3 4 5 show ?thesis by blast
  qed
qed

lemma age_track_counter:
  assumes "age_track p t = Some t'"
  shows "RobustTrack.frames_since_detection t' = RobustTrack.frames_since_detection t + 1
       \<and> RobustTrack.frames_since_detection t' \<le> max_skip_frames p
       \<and> RobustTrack.is_resting t'"
  using assms
  by (auto simp: age_track_def enter_rest_mode_def expand_rest_zone_def Let_def split: if_splits)

lemma age_track_dropped:
  "age_track p t = None \<longleftrightarrow> max_skip_frames p < RobustTrack.frames_since_detection t + 1"
  by (auto simp: age_track_def Let_def)

lemma update_counter:
  "RobustTrack.frames_since_detection (update t c fidx) = 0 \<and> \<not> RobustTrack.is_resting (update t c fidx)"
  by (simp add: update_def)

lemma match_candidates_members:
  assumes "match_candidates_to_tracks candidates tracks fidx p = (active, unmatched)"
  shows "\<exists>matched tracks'. matched \<subseteq> {..<length tracks} \<and> length tracks' = length tracks
       \<and> (\<forall>i < length tracks. i \<notin> matched \<longrightarrow> tracks' ! i = tracks ! i)
       \<and> (\<forall>i \<in> matched. \<exists>c < length candidates.
              tracks' ! i = update (tracks ! i) (candidates ! c) fidx)
       \<and> (\<forall>t'. t' \<in> set active \<longleftrightarrow>
              (\<exists>i < length tracks. (i \<notin> matched \<and> age_track p (tracks' ! i) = Some t')
                                  \<or> (i \<in> matched \<and> t' = tracks' ! i)))"
proof (cases "tracks = []")
  case True
  with assms have "active = []" by (simp add: match_candidates_to_tracks_def)
  with True have "{} \<subseteq> {..<length tracks} \<and> length tracks = length tracks
       \<and> (\<forall>i < length tracks. i \<notin> {} \<longrightarrow> tracks ! i = tracks ! i)
       \<and> (\<forall>i \<in> {}. \<exists>c < length candidates.
              tracks ! i = update (tracks ! i) (candidates ! c) fidx)
       \<and> (\<forall>t'. t' \<in> set active \<longleftrightarrow>
              (\<exists>i < length tracks. (i \<notin> {} \<and> age_track p (tracks ! i) = Some t')
                                  \<or> (i \<in> {} \<and> t' = tracks ! i)))"
    by simp
  then show ?thesis by blast
next
  case False
  note ne = this
  show ?thesis
  proof (cases "candidates = []")
    case True
    with assms ne have act: "active = List.map_filter (age_track p) tracks"
      by (simp add: match_candidates_to_tracks_def)
    have "\<forall>t'. t' \<in> set active \<longleftrightarrow>
              (\<exists>i < length tracks. (i \<notin> {} \<and> age_track p (tracks ! i) = Some t')
                                  \<or> (i \<in> {} \<and> t' = tracks ! i))"
    proof (intro allI)
      fix t'
      have "t' \<in> set active \<longleftrightarrow> (\<exists>x \<in> set tracks. age_track p x = Some t')"
        unfolding act by (simp add: in_set_map_filter)
      also have "\<dots> \<longleftrightarrow> (\<exists>i < length tracks. age_track p (tracks ! i) = Some t')"
        by (metis in_set_conv_nth)
      finally show "t' \<in> set active \<longleftrightarrow>
              (\<exists>i < length tracks. (i \<notin> {} \<and> age_track p (tracks ! i) = Some t')
                                  \<or> (i \<in> {} \<and> t' = tracks ! i))"
        by simp
    qed
    then have "{} \<subseteq> {..<length tracks} \<and> length tracks = length tracks
       \<and> (\<forall>i < length tracks. i \<notin> {} \<longrightarrow> tracks ! i = tracks ! i)
       \<and> (\<forall>i \<in> {}. \<exists>c < length candidates.
              tracks ! i = update (tracks ! i) (candidates ! c) fidx)
       \<and> (\<forall>t'. t' \<in> set active \<longleftrightarrow>
              (\<exists>i < length tracks. (i \<notin> {} \<and> age_track p (tracks ! i) = Some t')
                                  \<or> (i \<in> {} \<and> t' = tracks ! i)))"
      by simp
    then show ?thesis by blast
  next
    case False
    let ?ps = "sort_key (\<lambda>x. snd (snd x)) (association_pairs candidates tracks p)"
    obtain tracks' mc mt where g: "greedy_match candidates fidx ?ps (tracks, {}, {}) = (tracks', mc, mt)"
      by (cases "greedy_match candidates fidx ?ps (tracks, {}, {})") auto
    have rng: "\<forall>(c, t, x) \<in> set ?ps. c < length candidates \<and> t < length tracks"
      using association_pairs_mem by fastforce
    from greedy_match_shape[OF g rng] have sh:
      "length tracks' = length tracks" "mt \<subseteq> {..<length tracks}"
      "\<forall>i < length tracks. i \<notin> mt \<longrightarrow> tracks' ! i = tracks ! i"
      "\<forall>i \<in> mt. \<exists>c < length candidates. tracks' ! i = update (tracks ! i) (candidates ! c) fidx"
      by simp_all
    from assms ne False g have act: "active =
        List.map_filter (\<lambda>t_idx. if t_idx \<notin> mt then age_track p (tracks' ! t_idx) else None)
           [0..<length tracks']
        @ map (\<lambda>t_idx. tracks' ! t_idx) (filter (\<lambda>t_idx. t_idx \<in> mt) [0..<length tracks'])"
      by (simp add: match_candidates_to_tracks_def)
    have mem: "\<forall>t'. t' \<in> set active \<longleftrightarrow>
              (\<exists>i < length tracks. (i \<notin> mt \<and> age_track p (tracks' ! i) = Some t')
                                  \<or> (i \<in> mt \<and> t' = tracks' ! i))"
      unfolding act sh(1) by (auto simp: in_set_map_filter split: if_splits)
    from sh mem show ?thesis by blast
  qed
qed

text \<open>
  Claim C8. Let every track handed to the association step have a non-negative
  \<open>frames_since_detection\<close> (as every track of a run has). Then there is a set of tracks
  matched on this frame such that: a matched track is in the returned active list,
  updated with its candidate, with counter 0; an unmatched track is in the returned list
  exactly if its incremented counter is within \<open>max_skip_frames\<close>, and then its counter
  is the previous value plus 1, hence not 0; and every returned track is resting if and
  only if its counter is at least 1 and at most \<open>max_skip_frames\<close>. The same two
  properties hold for every track of the active list after any number of frames.
\<close>

theorem association_step_counters:
  "((\<forall>t \<in> set tracks. 0 \<le> RobustTrack.frames_since_detection t)
      \<and> match_candidates_to_tracks candidates tracks fidx p = (active, unmatched) \<longrightarrow>
      (\<exists>matched. matched \<subseteq> {..<length tracks}
         \<and> (\<forall>i < length tracks. i \<in> matched \<longrightarrow>
               (\<exists>c < length candidates. update (tracks ! i) (candidates ! c) fidx \<in> set active))
         \<and> (\<forall>i < length tracks. \<forall>t'. i \<notin> matched \<and> age_track p (tracks ! i) = Some t'
               \<longrightarrow> t' \<in> set active)
         \<and> (\<forall>t' \<in> set active. \<exists>i < length tracks.
               (i \<in> matched \<and> (\<exists>c < length candidates. t' = update (tracks ! i) (candidates ! c) fidx)
                  \<and> RobustTrack.frames_since_detection t' = 0)
             \<or> (i \<notin> matched \<and> age_track p (tracks ! i) = Some t'
                  \<and> RobustTrack.frames_since_detection t'
                      = RobustTrack.frames_since_detection (tracks ! i) + 1
                  \<and> RobustTrack.frames_since_detection t' \<noteq> 0)))
      \<and> (\<forall>t' \<in> set active. RobustTrack.is_resting t' \<longleftrightarrow>
            1 \<le> RobustTrack.frames_since_detection t'
          \<and> RobustTrack.frames_since_detection t' \<le> max_skip_frames p))
   \<and> (process_frames video 0 mp p ([], 1) = Inr (final, n) \<longrightarrow>
        (\<forall>t \<in> set final. 0 \<le> RobustTrack.frames_since_detection t
           \<and> (RobustTrack.is_resting t \<longleftrightarrow>
                 1 \<le> RobustTrack.frames_since_detection t
               \<and> RobustTrack.frames_since_detection t \<le> max_skip_frames p)))"
proof -
  have step: "(\<exists>matched. matched \<subseteq> {..<length tracks}
         \<and> (\<forall>i < length tracks. i \<in> matched \<longrightarrow>
               (\<exists>c < length candidates. update (tracks ! i) (candidates ! c) fidx \<in> set active))
         \<and> (\<forall>i < length tracks. \<forall>t'. i \<notin> matched \<and> age_track p (tracks ! i) = Some t'
               \<longrightarrow> t' \<in> set active)
         \<and> (\<forall>t' \<in> set active. \<exists>i < length tracks.
               (i \<in> matched \<and> (\<exists>c < length candidates. t' = update (tracks ! i) (candidates ! c) fidx)
                  \<and> RobustTrack.frames_since_detection t' = 0)
             \<or> (i \<notin> matched \<and> age_track p (tracks ! i) = Some t'
                  \<and> RobustTrack.frames_since_detection t'
                      = RobustTrack.frames_since_detection (tracks ! i) + 1
                  \<and> RobustTrack.frames_since_detection t' \<noteq> 0)))
      \<and> (\<forall>t' \<in> set active. RobustTrack.is_resting t' \<longleftrightarrow>
            1 \<le> RobustTrack.frames_since_detection t'
          \<and> RobustTrack.frames_since_detection t' \<le> max_skip_frames p)"
    if nonneg: "\<forall>t \<in> set tracks. 0 \<le> RobustTrack.frames_since_detection t"
      and m: "match_candidates_to_tracks candidates tracks fidx p = (active, unmatched)"
  proof -
    from match_candidates_members[OF m] obtain matched tracks' where
      sub: "matched \<subseteq> {..<length tracks}" and len: "length tracks' = length tracks"
      and same: "\<forall>i < length tracks. i \<notin> matched \<longrightarrow> tracks' ! i = tracks ! i"
      and upd: "\<forall>i \<in> matched. \<exists>c < length candidates.
              tracks' ! i = update (tracks ! i) (candidates ! c) fidx"
      and mem: "\<forall>t'. t' \<in> set active \<longleftrightarrow>
              (\<exists>i < length tracks. (i \<notin> matched \<and> age_track p (tracks' ! i) = Some t')
                                  \<or> (i \<in> matched \<and> t' = tracks' ! i))"
      by blast
    have a: "\<forall>i < length tracks. i \<in> matched \<longrightarrow>
               (\<exists>c < length candidates. update (tracks ! i) (candidates ! c) fidx \<in> set active)"
    proof (intro allI impI)
      fix i assume i: "i < length tracks" "i \<in> matched"
      with upd obtain c where c: "c < length candidates"
        "tracks' ! i = update (tracks ! i) (candidates ! c) fidx" by blast
      from mem i have "tracks' ! i \<in> set active" by blast
      with c show "\<exists>c < length candidates. update (tracks ! i) (candidates ! c) fidx \<in> set active"
        by auto
    qed
    have b: "\<forall>i < length tracks. \<forall>t'. i \<notin> matched \<and> age_track p (tracks ! i) = Some t'
               \<longrightarrow> t' \<in> set active"
    proof (intro allI impI)
      fix i t' assume i: "i < length tracks" and h: "i \<notin> matched \<and> age_track p (tracks ! i) = Some t'"
      with same have "age_track p (tracks' ! i) = Some t'" by simp
      with mem i h show "t' \<in> set active" by blast
    qed
    have c: "\<exists>i < length tracks.
               (i \<in> matched \<and> (\<exists>c < length candidates. t' = update (tracks ! i) (candidates ! c) fidx)
                  \<and> RobustTrack.frames_since_detection t' = 0)
             \<or> (i \<notin> matched \<and> age_track p (tracks ! i) = Some t'
                  \<and> RobustTrack.frames_since_detection t'
                      = RobustTrack.frames_since_detection (tracks ! i) + 1
                  \<and> RobustTrack.frames_since_detection t' \<noteq> 0)"
      and d: "RobustTrack.is_resting t' \<longleftrightarrow>
            1 \<le> RobustTrack.frames_since_detection t'
          \<and> RobustTrack.frames_since_detection t' \<le> max_skip_frames p"
      if t': "t' \<in> set active" for t'
    proof -
      from mem t' obtain i where i: "i < length tracks"
        and cases: "(i \<notin> matched \<and> age_track p (tracks' ! i) = Some t')
                      \<or> (i \<in> matched \<and> t' = tracks' ! i)"
        by blast
      from cases consider (aged) "i \<notin> matched" "age_track p (tracks ! i) = Some t'"
        | (hit) "i \<in> matched" "t' = tracks' ! i"
        using same i by auto
      then have "((i \<in> matched \<and> (\<exists>c < length candidates. t' = update (tracks ! i) (candidates ! c) fidx)
                  \<and> RobustTrack.frames_since_detection t' = 0)
             \<or> (i \<notin> matched \<and> age_track p (tracks ! i) = Some t'
                  \<and> RobustTrack.frames_since_detection t'
                      = RobustTrack.frames_since_detection (tracks ! i) + 1
                  \<and> RobustTrack.frames_since_detection t' \<noteq> 0))
           \<and> (RobustTrack.is_resting t' \<longleftrightarrow>
                 1 \<le> RobustTrack.frames_since_detection t'
               \<and> RobustTrack.frames_since_detection t' \<le> max_skip_frames p)"
      proof cases
        case aged
        from nonneg i have "0 \<le> RobustTrack.frames_since_detection (tracks ! i)" by simp
        with age_track_counter[OF aged(2)] aged show ?thesis by simp
      next
        case hit
        with upd obtain c where "c < length candidates"
          "t' = update (tracks ! i) (candidates ! c) fidx" by auto
        with hit update_counter[of "tracks ! i" "candidates ! c" fidx] show ?thesis by auto
      qed
      then have both:
        "(i \<in> matched \<and> (\<exists>c < length candidates. t' = update (tracks ! i) (candidates ! c) fidx)
                  \<and> RobustTrack.frames_since_detection t' = 0)
             \<or> (i \<notin> matched \<and> age_track p (tracks ! i) = Some t'
                  \<and> RobustTrack.frames_since_detection t'
                      = RobustTrack.frames_since_detection (tracks ! i) + 1
                  \<and> RobustTrack.frames_since_detection t' \<noteq> 0)"
        "RobustTrack.is_resting t' \<longleftrightarrow>
            1 \<le> RobustTrack.frames_since_detection t'
          \<and> RobustTrack.frames_since_detection t' \<le> max_skip_frames p"
        by (rule conjunct1, rule conjunct2)
      from both(1) i show "\<exists>i < length tracks.
               (i \<in> matched \<and> (\<exists>c < length candidates. t' = update (tracks ! i) (candidates ! c) fidx)
                  \<and> RobustTrack.frames_since_detection t' = 0)
             \<or> (i \<notin> matched \<and> age_track p (tracks ! i) = Some t'
                  \<and> RobustTrack.frames_since_detection t'
                      = RobustTrack.frames_since_detection (tracks ! i) + 1
                  \<and> RobustTrack.frames_since_detection t' \<noteq> 0)"
        by (intro exI[of _ i] conjI)
      from both(2) show "RobustTrack.is_resting t' \<longleftrightarrow>
            1 \<le> RobustTrack.frames_since_detection t'
          \<and> RobustTrack.frames_since_detection t' \<le> max_skip_frames p" .
    qed
    have c': "\<forall>t' \<in> set active. \<exists>i < length tracks.
               (i \<in> matched \<and> (\<exists>c < length candidates. t' = update (tracks ! i) (candidates ! c) fidx)
                  \<and> RobustTrack.frames_since_detection t' = 0)
             \<or> (i \<notin> matched \<and> age_track p (tracks ! i) = Some t'
                  \<and> RobustTrack.frames_since_detection t'
                      = RobustTrack.frames_since_detection (tracks ! i) + 1
                  \<and> RobustTrack.frames_since_detection t' \<noteq> 0)"
      by (rule ballI) (rule c)
    have d': "\<forall>t' \<in> set active. RobustTrack.is_resting t' \<longleftrightarrow>
            1 \<le> RobustTrack.frames_since_detection t'
          \<and> RobustTrack.frames_since_detection t' \<le> max_skip_frames p"
      by (rule ballI) (rule d)
    show ?thesis
      apply (rule conjI)
       apply (rule exI[of _ matched])
       apply (intro conjI)
          apply (rule sub)
         apply (rule a)
        apply (rule b)
       apply (rule c')
      apply (rule d')
      done
  qed
  have run: "\<forall>t \<in> set final. 0 \<le> RobustTrack.frames_since_detection t
           \<and> (RobustTrack.is_resting t \<longleftrightarrow>
                 1 \<le> RobustTrack.frames_since_detection t
               \<and> RobustTrack.frames_since_detection t \<le> max_skip_frames p)"
    if pf: "process_frames video 0 mp p ([], 1) = Inr (final, n)"
  proof (rule process_frames_preserves
      [where P = "\<lambda>t. 0 \<le> RobustTrack.frames_since_detection t
           \<and> (RobustTrack.is_resting t \<longleftrightarrow>
                 1 \<le> RobustTrack.frames_since_detection t
               \<and> RobustTrack.frames_since_detection t \<le> max_skip_frames p)", OF _ _ _ _ pf])
    show "\<And>t c f. 0 \<le> RobustTrack.frames_since_detection t
           \<and> (RobustTrack.is_resting t \<longleftrightarrow>
                 1 \<le> RobustTrack.frames_since_detection t
               \<and> RobustTrack.frames_since_detection t \<le> max_skip_frames p)
        \<Longrightarrow> 0 \<le> RobustTrack.frames_since_detection (update t c f)
           \<and> (RobustTrack.is_resting (update t c f) \<longleftrightarrow>
                 1 \<le> RobustTrack.frames_since_detection (update t c f)
               \<and> RobustTrack.frames_since_detection (update t c f) \<le> max_skip_frames p)"
      by (simp add: update_def)
    show "\<And>t t'. 0 \<le> RobustTrack.frames_since_detection t
           \<and> (RobustTrack.is_resting t \<longleftrightarrow>
                 1 \<le> RobustTrack.frames_since_detection t
               \<and> RobustTrack.frames_since_detection t \<le> max_skip_frames p)
        \<Longrightarrow> age_track p t = Some t'
        \<Longrightarrow> 0 \<le> RobustTrack.frames_since_detection t'
           \<and> (RobustTrack.is_resting t' \<longleftrightarrow>
                 1 \<le> RobustTrack.frames_since_detection t'
               \<and> RobustTrack.frames_since_detection t' \<le> max_skip_frames p)"
    proof -
      fix t t'
      assume P: "0 \<le> RobustTrack.frames_since_detection t
           \<and> (RobustTrack.is_resting t \<longleftrightarrow>
                 1 \<le> RobustTrack.frames_since_detection t
               \<and> RobustTrack.frames_since_detection t \<le> max_skip_frames p)"
        and ag: "age_track p t = Some t'"
      from age_track_counter[OF ag] P show "0 \<le> RobustTrack.frames_since_detection t'
           \<and> (RobustTrack.is_resting t' \<longleftrightarrow>
                 1 \<le> RobustTrack.frames_since_detection t'
               \<and> RobustTrack.frames_since_detection t' \<le> max_skip_frames p)"
        by simp
    qed
    show "\<And>n. 0 \<le> RobustTrack.frames_since_detection (RobustTrack_init n)
           \<and> (RobustTrack.is_resting (RobustTrack_init n) \<longleftrightarrow>
                 1 \<le> RobustTrack.frames_since_detection (RobustTrack_init n)
               \<and> RobustTrack.frames_since_detection (RobustTrack_init n) \<le> max_skip_frames p)"
      by (simp add: RobustTrack_init_def)
    show "\<forall>t \<in> set []. 0 \<le> RobustTrack.frames_since_detection t
           \<and> (RobustTrack.is_resting t \<longleftrightarrow>
                 1 \<le> RobustTrack.frames_since_detection t
               \<and> RobustTrack.frames_since_detection t \<le> max_skip_frames p)"
      by simp
  qed
  show ?thesis
  proof (rule conjI; rule impI)
    assume h: "(\<forall>t \<in> set tracks. 0 \<le> RobustTrack.frames_since_detection t)
      \<and> match_candidates_to_tracks candidates tracks fidx p = (active, unmatched)"
    from step[OF conjunct1[OF h] conjunct2[OF h]]
    show "(\<exists>matched. matched \<subseteq> {..<length tracks}
         \<and> (\<forall>i < length tracks. i \<in> matched \<longrightarrow>
               (\<exists>c < length candidates. update (tracks ! i) (candidates ! c) fidx \<in> set active))
         \<and> (\<forall>i < length tracks. \<forall>t'. i \<notin> matched \<and> age_track p (tracks ! i) = Some t'
               \<longrightarrow> t' \<in> set active)
         \<and> (\<forall>t' \<in> set active. \<exists>i < length tracks.
               (i \<in> matched \<and> (\<exists>c < length candidates. t' = update (tracks ! i) (candidates ! c) fidx)
                  \<and> RobustTrack.frames_since_detection t' = 0)
             \<or> (i \<notin> matched \<and> age_track p (tracks ! i) = Some t'
                  \<and> RobustTrack.frames_since_detection t'
                      = RobustTrack.frames_since_detection (tracks ! i) + 1
                  \<and> RobustTrack.frames_since_detection t' \<noteq> 0)))
      \<and> (\<forall>t' \<in> set active. RobustTrack.is_resting t' \<longleftrightarrow>
            1 \<le> RobustTrack.frames_since_detection t'
          \<and> RobustTrack.frames_since_detection t' \<le> max_skip_frames p)" .
  next
    assume pf: "process_frames video 0 mp p ([], 1) = Inr (final, n)"
    from run[OF pf]
    show "\<forall>t \<in> set final. 0 \<le> RobustTrack.frames_since_detection t
           \<and> (RobustTrack.is_resting t \<longleftrightarrow>
                 1 \<le> RobustTrack.frames_since_detection t
               \<and> RobustTrack.frames_since_detection t \<le> max_skip_frames p)" .
  qed
qed

lemma ex_tracks_fields:
  "RobustTrack.positions ex_track_near = [(0, 0)]"
  "RobustTrack.positions ex_track_away = [(1000, 0)]"
  "\<not> RobustTrack.is_resting ex_track_near"
  "\<not> RobustTrack.is_resting ex_track_away"
  "RobustTrack.frames_since_detection ex_track_near = 0"
  "RobustTrack.frames_since_detection ex_track_away = 0"
  "OrganismCandidate.centroid (ex_candidate f c) = c"
  by (simp_all add: ex_track_near_def ex_track_away_def update_def RobustTrack_init_def
        ex_candidate_def dark_only_candidate_def)

lemma ex_adjusted_distances:
  "adjusted_distance (ex_candidate 1 (3, 0)) ex_track_near = 3"
  "adjusted_distance (ex_candidate 1 (3, 0)) ex_track_away = 997"
  by (simp_all add: adjusted_distance_def predicted_position_def ex_tracks_fields
        euclidean_same_y)

lemma ex_association_pairs:
  "association_pairs [ex_candidate 1 (3, 0)] [ex_track_near, ex_track_away]
     RobustTrackingParams_default = [(0, 0, 3)]"
proof -
  have u2: "[0..<2] = [0, Suc 0]" by (simp add: upt_rec)
  have m: "RobustTrackingParams.max_distance RobustTrackingParams_default = 60"
    by (simp add: RobustTrackingParams_default_def)
  show ?thesis
    by (simp add: association_pairs_def u2 ex_adjusted_distances ex_tracks_fields m)
qed

lemma ex_age_away:
  "age_track RobustTrackingParams_default ex_track_away
     = Some (ex_track_away\<lparr>RobustTrack.frames_since_detection := 1,
           RobustTrack.is_resting := True, RobustTrack.rest_zone_center := Some (1000, 0),
           RobustTrack.rest_zone_radius := 100\<rparr>)"
  by (simp add: age_track_def enter_rest_mode_def ex_tracks_fields Let_def
        RobustTrackingParams_default_def)

lemma ex_match_step:
  "match_candidates_to_tracks [ex_candidate 1 (3, 0)] [ex_track_near, ex_track_away] 1
       RobustTrackingParams_default
     = ([ex_track_away\<lparr>RobustTrack.frames_since_detection := 1,
           RobustTrack.is_resting := True, RobustTrack.rest_zone_center := Some (1000, 0),
           RobustTrack.rest_zone_radius := 100\<rparr>,
         update ex_track_near (ex_candidate 1 (3, 0)) 1], [])"
proof -
  have u2: "[0..<2] = [0, Suc 0]" by (simp add: upt_rec)
  show ?thesis
    by (simp add: match_candidates_to_tracks_def ex_association_pairs u2 ex_age_away)
qed

theorem association_step_counters_witness:
  "match_candidates_to_tracks [ex_candidate 1 (3, 0)] [ex_track_near, ex_track_away] 1
       RobustTrackingParams_default
     = ([ex_track_away\<lparr>RobustTrack.frames_since_detection := 1,
           RobustTrack.is_resting := True, RobustTrack.rest_zone_center := Some (1000, 0),
           RobustTrack.rest_zone_radius := 100\<rparr>,
         update ex_track_near (ex_candidate 1 (3, 0)) 1], [])
   \<and> RobustTrack.is_resting
        (ex_track_away\<lparr>RobustTrack.frames_since_detection := 1,
           RobustTrack.is_resting := True, RobustTrack.rest_zone_center := Some (1000, 0),
           RobustTrack.rest_zone_radius := 100\<rparr>)
   \<and> \<not> RobustTrack.is_resting (update ex_track_near (ex_candidate 1 (3, 0)) 1)"
proof -
  let ?aged = "ex_track_away\<lparr>RobustTrack.frames_since_detection := 1,
           RobustTrack.is_resting := True, RobustTrack.rest_zone_center := Some (1000, 0),
           RobustTrack.rest_zone_radius := 100\<rparr>"
  let ?hit = "update ex_track_near (ex_candidate 1 (3, 0)) 1"
  have h: "(\<forall>t \<in> set [ex_track_near, ex_track_away]. 0 \<le> RobustTrack.frames_since_detection t)
      \<and> match_candidates_to_tracks [ex_candidate 1 (3, 0)] [ex_track_near, ex_track_away] 1
           RobustTrackingParams_default = ([?aged, ?hit], [])"
    using ex_match_step by (simp add: ex_tracks_fields)
  note inst = association_step_counters[of "[ex_track_near, ex_track_away]"
      "[ex_candidate 1 (3, 0)]" 1 RobustTrackingParams_default "[?aged, ?hit]" "[]"]
  from conjunct1[OF inst, THEN mp, OF h]
  have all: "\<forall>t' \<in> set [?aged, ?hit]. RobustTrack.is_resting t' \<longleftrightarrow>
            1 \<le> RobustTrack.frames_since_detection t'
          \<and> RobustTrack.frames_since_detection t' \<le> max_skip_frames RobustTrackingParams_default"
    by (rule conjunct2)
  have f: "RobustTrack.frames_since_detection ?aged = 1"
    "RobustTrack.frames_since_detection ?hit = 0"
    "max_skip_frames RobustTrackingParams_default = 90"
    by (simp_all add: update_def RobustTrackingParams_default_def)
  from all f have "RobustTrack.is_resting ?aged" "\<not> RobustTrack.is_resting ?hit"
    by simp_all
  with ex_match_step show ?thesis by simp
qed

section \<open>Tracks that exceed the skip budget\<close>

lemma update_track_id: "RobustTrack.track_id (update t c f) = RobustTrack.track_id t"
  by (simp add: update_def)

lemma age_track_track_id:
  assumes "age_track p t = Some t'"
  shows "RobustTrack.track_id t' = RobustTrack.track_id t"
  using assms
  by (auto simp: age_track_def enter_rest_mode_def expand_rest_zone_def Let_def split: if_splits)

lemma match_candidates_track_ids:
  assumes "match_candidates_to_tracks candidates tracks fidx p = (active, unmatched)"
  shows "\<forall>t' \<in> set active. RobustTrack.track_id t' \<in> RobustTrack.track_id ` set tracks"
proof (rule match_candidates_preserves
    [where P = "\<lambda>t. RobustTrack.track_id t \<in> RobustTrack.track_id ` set tracks", OF _ _ _ assms])
  show "\<And>t c. RobustTrack.track_id t \<in> RobustTrack.track_id ` set tracks
          \<Longrightarrow> RobustTrack.track_id (update t c fidx) \<in> RobustTrack.track_id ` set tracks"
    by (simp add: update_track_id)
  show "\<And>t t'. RobustTrack.track_id t \<in> RobustTrack.track_id ` set tracks
          \<Longrightarrow> age_track p t = Some t'
          \<Longrightarrow> RobustTrack.track_id t' \<in> RobustTrack.track_id ` set tracks"
    by (simp add: age_track_track_id)
  show "\<forall>t \<in> set tracks. RobustTrack.track_id t \<in> RobustTrack.track_id ` set tracks"
    by simp
qed

lemma new_tracks_track_ids:
  assumes "new_tracks cs fidx (active, n) = (active', n')"
  shows "n \<le> n' \<and> (\<forall>t \<in> set active'. t \<in> set active
                       \<or> (n \<le> RobustTrack.track_id t \<and> RobustTrack.track_id t < n'))"
  using assms
proof (induction cs arbitrary: active n)
  case Nil
  then show ?case by simp
next
  case (Cons c cs)
  let ?new = "update (RobustTrack_init n) c fidx"
  from Cons.prems have "new_tracks cs fidx (active @ [?new], n + 1) = (active', n')" by simp
  from Cons.IH[OF this] have IH: "n + 1 \<le> n'"
    "\<forall>t \<in> set active'. t \<in> set (active @ [?new])
        \<or> (n + 1 \<le> RobustTrack.track_id t \<and> RobustTrack.track_id t < n')"
    by simp_all
  have idn: "RobustTrack.track_id ?new = n"
    by (simp add: update_track_id RobustTrack_init_def)
  have "\<forall>t \<in> set active'. t \<in> set active
          \<or> (n \<le> RobustTrack.track_id t \<and> RobustTrack.track_id t < n')"
  proof
    fix t assume "t \<in> set active'"
    with IH(2) consider "t \<in> set active" | "t = ?new"
      | "n + 1 \<le> RobustTrack.track_id t \<and> RobustTrack.track_id t < n'"
      by auto
    then show "t \<in> set active \<or> (n \<le> RobustTrack.track_id t \<and> RobustTrack.track_id t < n')"
    proof cases
      case 1 then show ?thesis by simp
    next
      case 2 with idn IH(1) show ?thesis by simp
    next
      case 3 then show ?thesis by simp
    qed
  qed
  with IH(1) show ?case by simp
qed

text \<open>
  The identifiers in the active list after any number of frames are identifiers that
  were in the active list before, or fresh ones: a track that has left the active list
  is in no later active list, so it is never matched, updated or used in a distance
  computation again.
\<close>

lemma process_frames_track_ids:
  assumes "process_frames video fidx mp tp (active, n) = Inr (active', n')"
  shows "n \<le> n' \<and> (\<forall>t' \<in> set active'.
            RobustTrack.track_id t' \<in> RobustTrack.track_id ` set active
          \<or> (n \<le> RobustTrack.track_id t' \<and> RobustTrack.track_id t' < n'))"
  using assms
proof (induction video arbitrary: fidx active n)
  case Nil
  then show ?case by simp
next
  case (Cons fr video)
  obtain dark bright where fr: "fr = (dark, bright)" by (cases fr) auto
  from Cons.prems fr obtain candidates where
    c: "merge_blobs_into_candidates dark bright fidx mp = Inr candidates"
    by (cases "merge_blobs_into_candidates dark bright fidx mp") auto
  obtain act1 unmatched where
    m: "match_candidates_to_tracks candidates active fidx tp = (act1, unmatched)"
    by (cases "match_candidates_to_tracks candidates active fidx tp") auto
  obtain act2 n2 where nt: "new_tracks unmatched fidx (act1, n) = (act2, n2)"
    by (cases "new_tracks unmatched fidx (act1, n)") auto
  from Cons.prems fr c m nt have
    rec: "process_frames video (fidx + 1) mp tp (act2, n2) = Inr (active', n')"
    by simp
  from Cons.IH[OF rec] have IH: "n2 \<le> n'"
    "\<forall>t' \<in> set active'. RobustTrack.track_id t' \<in> RobustTrack.track_id ` set act2
          \<or> (n2 \<le> RobustTrack.track_id t' \<and> RobustTrack.track_id t' < n')"
    by simp_all
  from new_tracks_track_ids[OF nt] have N: "n \<le> n2"
    "\<forall>t \<in> set act2. t \<in> set act1 \<or> (n \<le> RobustTrack.track_id t \<and> RobustTrack.track_id t < n2)"
    by simp_all
  note M = match_candidates_track_ids[OF m]
  have "\<forall>t' \<in> set active'.
            RobustTrack.track_id t' \<in> RobustTrack.track_id ` set active
          \<or> (n \<le> RobustTrack.track_id t' \<and> RobustTrack.track_id t' < n')"
  proof
    fix t' assume "t' \<in> set active'"
    with IH(2) consider t where "t \<in> set act2" "RobustTrack.track_id t' = RobustTrack.track_id t"
      | "n2 \<le> RobustTrack.track_id t' \<and> RobustTrack.track_id t' < n'"
      by auto
    then show "RobustTrack.track_id t' \<in> RobustTrack.track_id ` set active
          \<or> (n \<le> RobustTrack.track_id t' \<and> RobustTrack.track_id t' < n')"
    proof cases
      case 1
      from N(2) 1(1) consider "t \<in> set act1"
        | "n \<le> RobustTrack.track_id t \<and> RobustTrack.track_id t < n2" by auto
      then show ?thesis
      proof cases
        case 1
        with M have "RobustTrack.track_id t \<in> RobustTrack.track_id ` set active" by simp
        with \<open>RobustTrack.track_id t' = RobustTrack.track_id t\<close> show ?thesis by simp
      next
        case 2
        with IH(1) \<open>RobustTrack.track_id t' = RobustTrack.track_id t\<close> show ?thesis by simp
      qed
    next
      case 2
      with N(1) show ?thesis by simp
    qed
  qed
  with IH(1) N(1) show ?case by simp
qed

lemma ex_merge_single_dark:
  "merge_blobs_into_candidates [\<lparr>blob.centroid = c, blob.bbox = (0, 0, 2, 2), blob.area = 4\<rparr>] []
       f mp = Inr [ex_candidate f c]"
  by (simp add: merge_blobs_into_candidates_def ex_candidate_def)

lemma ex_merge_nothing: "merge_blobs_into_candidates [] [] f mp = Inr []"
  by (simp add: merge_blobs_into_candidates_def)

lemma ex_gap_frame0:
  "process_frames (take 1 ex_video_gap) 0 ex_merge_params ex_params_skip_one ([], 1)
     = Inr ([ex_track_near], 2)"
  by (simp add: ex_video_gap_def ex_merge_single_dark match_candidates_to_tracks_def
        ex_track_near_def)

lemma ex_gap_frame1:
  "process_frames (take 2 ex_video_gap) 0 ex_merge_params ex_params_skip_one ([], 1)
     = Inr ([ex_track_near\<lparr>RobustTrack.frames_since_detection := 1,
               RobustTrack.is_resting := True, RobustTrack.rest_zone_center := Some (0, 0),
               RobustTrack.rest_zone_radius := 100\<rparr>], 2)"
  by (simp add: ex_video_gap_def ex_merge_single_dark ex_merge_nothing
        match_candidates_to_tracks_def age_track_def enter_rest_mode_def ex_params_skip_one_def
        ex_tracks_fields Let_def flip: ex_track_near_def)

lemma ex_gap_frame2:
  "process_frames (take 3 ex_video_gap) 0 ex_merge_params ex_params_skip_one ([], 1)
     = Inr ([], 2)"
  by (simp add: ex_video_gap_def ex_merge_single_dark ex_merge_nothing
        match_candidates_to_tracks_def age_track_def enter_rest_mode_def ex_params_skip_one_def
        ex_tracks_fields Let_def flip: ex_track_near_def)

lemma ex_gap_run:
  "process_video_robust ex_video_gap ex_merge_params ex_params_skip_one
     = Inr [update (RobustTrack_init 2) (ex_candidate 3 (0, 0)) 3]"
  by (simp add: process_video_robust_def ex_video_gap_def ex_merge_single_dark ex_merge_nothing
        match_candidates_to_tracks_def age_track_def enter_rest_mode_def ex_params_skip_one_def
        RobustTrackingParams_default_def validate_track_def track_length_def
        update_def RobustTrack_init_def Let_def)

text \<open>
  Claim C1, at the input where the code departs from it. Track 1 is created in frame 0
  and exceeds the skip budget of one frame in frame 2. From then on it is in no active
  list: the blob that reappears at its position in frame 3 starts track 2 and leaves
  track 1 untouched. But the finalized output is built from the last active list only,
  so track 1 is not in it.
\<close>

theorem frozen_track_not_in_output:
  "process_frames (take 1 ex_video_gap) 0 ex_merge_params ex_params_skip_one ([], 1)
     = Inr ([ex_track_near], 2)
   \<and> RobustTrack.track_id ex_track_near = 1
   \<and> process_frames (take 3 ex_video_gap) 0 ex_merge_params ex_params_skip_one ([], 1)
       = Inr ([], 2)
   \<and> process_video_robust ex_video_gap ex_merge_params ex_params_skip_one
       = Inr [update (RobustTrack_init 2) (ex_candidate 3 (0, 0)) 3]
   \<and> RobustTrack.track_id (update (RobustTrack_init 2) (ex_candidate 3 (0, 0)) 3) = 2"
  using ex_gap_frame0 ex_gap_frame2 ex_gap_run
  by (simp add: ex_track_near_def update_track_id RobustTrack_init_def)

end
